theory Spec2Isabelle
  imports Main
begin

section \<open>Strings\<close>

text \<open>
  JavaScript strings are modelled as HOL strings (lists of 8-bit characters), so the
  two string methods the code relies on are modelled on ASCII:
  \<^verbatim>\<open>String.prototype.toLowerCase\<close> maps \<open>A\<close>..\<open>Z\<close> to \<open>a\<close>..\<open>z\<close>, and
  \<^verbatim>\<open>String.prototype.trim\<close> removes leading and trailing white space
  (tab, line feed, vertical tab, form feed, carriage return, space).
\<close>

definition lowerChar :: "char \<Rightarrow> char" where
  "lowerChar c =
     (let n = (of_char c :: nat) in if 65 \<le> n \<and> n \<le> 90 then char_of (n + 32) else c)"

definition toLowerCase :: "string \<Rightarrow> string" where
  "toLowerCase s = map lowerChar s"

definition isSpace :: "char \<Rightarrow> bool" where
  "isSpace c = (let n = (of_char c :: nat) in (9 \<le> n \<and> n \<le> 13) \<or> n = 32)"

definition trim :: "string \<Rightarrow> string" where
  "trim s = rev (dropWhile isSpace (rev (dropWhile isSpace s)))"

section \<open>Errors\<close>

text \<open>
  Every \<^verbatim>\<open>throw\<close> of the source is a value of this type.
  \<^item> \<open>Error m\<close> is \<^verbatim>\<open>new Error(m)\<close> with a literal message;
  \<^item> \<open>Wrap p e\<close> is the re-throw of the \<^verbatim>\<open>catch\<close> blocks,
    \<^verbatim>\<open>new Error(`p: ${e.message}`)\<close>;
  \<^item> \<open>ValidationError\<close> is the failure of Mongoose's schema validation
    (the failing paths with the kind of validator);
  \<^item> \<open>DuplicateKeyError\<close> is MongoDB's E11000 on the unique index of a path;
  \<^item> \<open>LibraryError\<close> is an error thrown by \<^verbatim>\<open>google-auth-library\<close>;
  \<^item> \<open>JsonWebTokenError\<close> and \<open>TokenExpiredError\<close> are the errors of
    \<^verbatim>\<open>jsonwebtoken\<close>; the second is a subclass of the first.
\<close>

datatype error =
    Error string
  | Wrap string error
  | ValidationError "(string \<times> string) list"
  | DuplicateKeyError string
  | LibraryError string
  | JsonWebTokenError string
  | TokenExpiredError

fun isJsonWebTokenError :: "error \<Rightarrow> bool" where
  "isJsonWebTokenError (JsonWebTokenError m) = True"
| "isJsonWebTokenError TokenExpiredError = True"
| "isJsonWebTokenError e = False"

section \<open>Data model (types/users.ts, types/common.ts)\<close>

text \<open>
  An \<^verbatim>\<open>ObjectId\<close> is a number; dates are milliseconds since the epoch.
  An optional property (\<^verbatim>\<open>picture?: string\<close>) is an \<open>option\<close>.
  The field \<^verbatim>\<open>_id\<close> is written \<open>u_id\<close>.
\<close>

type_synonym object_id = nat

record IUser =
  u_id :: object_id
  googleId :: string
  email :: string
  name :: string
  picture :: "string option"
  isActive :: bool
  createdAt :: int
  updatedAt :: int

record UserDto =
  dto_id :: object_id
  dto_email :: string
  dto_name :: string
  dto_picture :: "string option"
  dto_isActive :: bool
  dto_createdAt :: int
  dto_updatedAt :: int

record CreateUserData =
  c_googleId :: string
  c_email :: string
  c_name :: string
  c_picture :: "string option"

record UpdateUserData =
  upd_name :: "string option"
  upd_picture :: "string option"
  upd_isActive :: "bool option"

record JwtPayload =
  userId :: object_id
  jp_email :: string
  jp_iat :: "int option"
  jp_exp :: "int option"

record GoogleTokenPayload =
  sub :: string
  gp_email :: string
  email_verified :: bool
  gp_name :: string
  gp_picture :: "string option"
  given_name :: "string option"
  family_name :: "string option"
  iat :: int
  exp :: int
  aud :: string
  iss :: string

text \<open>
  The payload of a ticket of \<^verbatim>\<open>google-auth-library\<close> (its \<^verbatim>\<open>TokenPayload\<close>):
  \<^verbatim>\<open>iss\<close>, \<^verbatim>\<open>sub\<close>, \<^verbatim>\<open>aud\<close>, \<^verbatim>\<open>iat\<close> and \<^verbatim>\<open>exp\<close> are
  always there, the other claims are optional.
\<close>

record TokenPayload =
  tp_sub :: string
  tp_email :: "string option"
  tp_email_verified :: "bool option"
  tp_name :: "string option"
  tp_picture :: "string option"
  tp_given_name :: "string option"
  tp_family_name :: "string option"
  tp_iat :: int
  tp_exp :: int
  tp_aud :: string
  tp_iss :: string

definition transformUserToDto :: "IUser \<Rightarrow> UserDto" where
  "transformUserToDto user =
     \<lparr>dto_id = u_id user, dto_email = email user, dto_name = name user,
      dto_picture = (case picture user of None \<Rightarrow> None
                     | Some p \<Rightarrow> if p = [] then None else Some p),
      dto_isActive = isActive user, dto_createdAt = createdAt user,
      dto_updatedAt = updatedAt user\<rparr>"

section \<open>Configuration (config/environment.ts)\<close>

text \<open>
  \<open>jwtExpiresIn\<close> is the time span of \<^verbatim>\<open>JWT_EXPIRES_IN\<close> in seconds
  (604800 for the default \<^verbatim>\<open>"7d"\<close>).
\<close>

record environment =
  jwtSecret :: string
  jwtExpiresIn :: int
  googleClientId :: string

section \<open>Session tokens (middleware/auth.ts over jsonwebtoken)\<close>

text \<open>
  A token is modelled symbolically: a well-formed token is a payload with a signature,
  and the signature \<open>HS256 k p\<close> is the one that only the key \<open>k\<close> produces for
  the payload \<open>p\<close>. Any other string is \<open>Malformed\<close>; \<open>Malformed []\<close> is the empty
  string. \<^verbatim>\<open>jwt.sign\<close> stamps \<^verbatim>\<open>iat\<close> with the clock in seconds and
  \<^verbatim>\<open>exp\<close> with \<^verbatim>\<open>iat\<close> plus the time span; \<^verbatim>\<open>jwt.verify\<close> checks the
  signature, then the expiry (\<^verbatim>\<open>clock >= exp\<close> is expired).
\<close>

datatype signature = HS256 string JwtPayload

datatype token = Jwt JwtPayload signature | Malformed string

definition jwt_sign :: "int \<Rightarrow> JwtPayload \<Rightarrow> string \<Rightarrow> int \<Rightarrow> token" where
  "jwt_sign now payload secret expiresIn =
     (let p = payload\<lparr>jp_iat := Some (now div 1000),
                      jp_exp := Some (now div 1000 + expiresIn)\<rparr>
      in Jwt p (HS256 secret p))"

definition jwt_verify :: "int \<Rightarrow> token \<Rightarrow> string \<Rightarrow> error + JwtPayload" where
  "jwt_verify now t secret =
     (case t of
        Malformed s \<Rightarrow> Inl (JsonWebTokenError ''jwt malformed'')
      | Jwt p sg \<Rightarrow>
          if sg \<noteq> HS256 secret p then Inl (JsonWebTokenError ''invalid signature'')
          else (case jp_exp p of
                  None \<Rightarrow> Inr p
                | Some e \<Rightarrow> if now div 1000 \<ge> e then Inl TokenExpiredError else Inr p))"

definition generateJwtToken :: "environment \<Rightarrow> int \<Rightarrow> object_id \<Rightarrow> string \<Rightarrow> token" where
  "generateJwtToken env now uid mail =
     jwt_sign now \<lparr>userId = uid, jp_email = mail, jp_iat = None, jp_exp = None\<rparr>
       (jwtSecret env) (jwtExpiresIn env)"

definition verifyJwtToken :: "environment \<Rightarrow> int \<Rightarrow> token \<Rightarrow> error + JwtPayload" where
  "verifyJwtToken env now t = jwt_verify now t (jwtSecret env)"

section \<open>Identity Token Verifier (middleware/auth.ts over google-auth-library)\<close>

text \<open>
  The collaborators the code calls and this repository does not implement are
  parameters: \<open>verifyIdToken idToken audience\<close> is
  \<^verbatim>\<open>googleClient.verifyIdToken\<close> followed by \<^verbatim>\<open>ticket.getPayload()\<close>
  (it throws a message, or gives a payload or \<^verbatim>\<open>undefined\<close>); \<open>isUrl\<close> and
  \<open>isEmail\<close> are the string formats of the Zod schemas.
\<close>

record externals =
  verifyIdToken :: "string \<Rightarrow> string \<Rightarrow> string + TokenPayload option"
  isUrl :: "string \<Rightarrow> bool"
  isEmail :: "string \<Rightarrow> bool"

definition verifyGoogleToken ::
  "environment \<Rightarrow> externals \<Rightarrow> string \<Rightarrow> error + GoogleTokenPayload" where
  "verifyGoogleToken env ext idToken =
     (case verifyIdToken ext idToken (googleClientId env) of
        Inl m \<Rightarrow> Inl (Wrap ''Failed to verify Google token'' (LibraryError m))
      | Inr None \<Rightarrow>
          Inl (Wrap ''Failed to verify Google token''
                 (Error ''Invalid Google ID token - no payload''))
      | Inr (Some payload) \<Rightarrow>
          Inr \<lparr>sub = tp_sub payload,
               gp_email = (case tp_email payload of None \<Rightarrow> [] | Some e \<Rightarrow> e),
               email_verified =
                 (case tp_email_verified payload of None \<Rightarrow> False | Some b \<Rightarrow> b),
               gp_name = (case tp_name payload of None \<Rightarrow> [] | Some n \<Rightarrow> n),
               gp_picture = tp_picture payload,
               given_name = tp_given_name payload,
               family_name = tp_family_name payload,
               iat = tp_iat payload,
               exp = tp_exp payload,
               aud = tp_aud payload,
               iss = tp_iss payload\<rparr>)"

section \<open>User Record Store (models/users.ts over Mongoose)\<close>

text \<open>
  The collection is the list of its documents in insertion order.
  \<^verbatim>\<open>findOne(filter)\<close> gives the first document whose fields equal the filter's,
  \<^verbatim>\<open>findById\<close> the document with that \<^verbatim>\<open>_id\<close> (whatever its active flag).
  Mongoose casts the values of a filter through the setters of the schema, so the
  email of a filter is lower-cased and trimmed before the comparison (the
  \<^verbatim>\<open>lowercase\<close> and \<^verbatim>\<open>trim\<close> options of the \<^verbatim>\<open>email\<close> path); the
  \<^verbatim>\<open>toLowerCase()\<close> of the source is absorbed by the setter.
  \<^verbatim>\<open>Model.exists\<close> gives the \<^verbatim>\<open>{ _id }\<close> of the first matching document or
  \<^verbatim>\<open>null\<close> (Mongoose 6 and later; before, the boolean of the same truth value), so
  \<open>existsByEmail\<close> returns an optional \<^verbatim>\<open>_id\<close>, truthy when it is \<open>Some\<close>.
\<close>

definition findById :: "object_id \<Rightarrow> IUser list \<Rightarrow> IUser option" where
  "findById i users = find (\<lambda>u. u_id u = i) users"

definition findByGoogleId :: "string \<Rightarrow> IUser list \<Rightarrow> IUser option" where
  "findByGoogleId g users = find (\<lambda>u. googleId u = g \<and> isActive u) users"

definition findByEmail :: "string \<Rightarrow> IUser list \<Rightarrow> IUser option" where
  "findByEmail e users =
     find (\<lambda>u. email u = trim (toLowerCase e) \<and> isActive u) users"

definition existsByEmail :: "string \<Rightarrow> IUser list \<Rightarrow> object_id option" where
  "existsByEmail e users =
     (case find (\<lambda>u. email u = trim (toLowerCase e) \<and> isActive u) users of
        None \<Rightarrow> None
      | Some u \<Rightarrow> Some (u_id u))"

definition countActive :: "IUser list \<Rightarrow> nat" where
  "countActive users = length (filter isActive users)"

text \<open>
  The schema: \<^verbatim>\<open>googleId\<close>, \<^verbatim>\<open>email\<close> and \<^verbatim>\<open>name\<close> are required
  (Mongoose's required validator refuses the empty string), \<^verbatim>\<open>name\<close> has
  \<^verbatim>\<open>maxlength: 100\<close>. \<open>validate\<close> lists the failing paths.
\<close>

definition validate :: "IUser \<Rightarrow> (string \<times> string) list" where
  "validate u =
     (if googleId u = [] then [(''googleId'', ''required'')] else []) @
     (if email u = [] then [(''email'', ''required'')] else []) @
     (if name u = [] then [(''name'', ''required'')]
      else if length (name u) > 100 then [(''name'', ''maxlength'')] else [])"

text \<open>
  \<^verbatim>\<open>new User(userData)\<close>: the setters of the schema run on assignment
  (\<^verbatim>\<open>lowercase\<close> and \<^verbatim>\<open>trim\<close> on \<^verbatim>\<open>email\<close>, \<^verbatim>\<open>trim\<close> on
  \<^verbatim>\<open>name\<close>), \<^verbatim>\<open>isActive\<close> takes its default, \<open>oid\<close> is the generated
  \<^verbatim>\<open>_id\<close>. The timestamps are unset until the document is saved (written 0).
\<close>

definition new_User :: "object_id \<Rightarrow> CreateUserData \<Rightarrow> IUser" where
  "new_User oid userData =
     \<lparr>u_id = oid, googleId = c_googleId userData,
      email = trim (toLowerCase (c_email userData)),
      name = trim (c_name userData), picture = c_picture userData,
      isActive = True, createdAt = 0, updatedAt = 0\<rparr>"

text \<open>The \<^verbatim>\<open>pre("save")\<close> hook of the schema.\<close>

definition preSave :: "bool \<Rightarrow> IUser \<Rightarrow> IUser" where
  "preSave emailModified u =
     (if emailModified then u\<lparr>email := toLowerCase (email u)\<rparr> else u)"

text \<open>
  \<^verbatim>\<open>save()\<close> of a new document: validation, the hook, the timestamps, then the
  insertion, which the unique indexes (\<^verbatim>\<open>_id\<close>, \<^verbatim>\<open>googleId\<close>,
  \<^verbatim>\<open>email\<close>, over all documents, active or not) may refuse.
\<close>

definition save_new :: "int \<Rightarrow> IUser \<Rightarrow> IUser list \<Rightarrow> (error + IUser) \<times> IUser list" where
  "save_new now doc users =
     (if validate doc \<noteq> [] then (Inl (ValidationError (validate doc)), users)
      else
        let d = (preSave True doc)\<lparr>createdAt := now, updatedAt := now\<rparr> in
        if u_id d \<in> set (map u_id users) then (Inl (DuplicateKeyError ''_id''), users)
        else if googleId d \<in> set (map googleId users)
          then (Inl (DuplicateKeyError ''googleId''), users)
        else if email d \<in> set (map email users)
          then (Inl (DuplicateKeyError ''email''), users)
        else (Inr d, users @ [d]))"

fun replaceById :: "IUser \<Rightarrow> IUser list \<Rightarrow> IUser list" where
  "replaceById d [] = []"
| "replaceById d (u # us) = (if u_id u = u_id d then d # us else u # replaceById d us)"

text \<open>
  \<^verbatim>\<open>save()\<close> of a document \<open>doc\<close> that was loaded as \<open>orig\<close> and then assigned
  to: validation, the hook, and, when a path was modified, the update of the stored
  document with \<^verbatim>\<open>updatedAt\<close> set to the clock. A save without a modified
  path writes nothing. The services assign only \<^verbatim>\<open>name\<close>, \<^verbatim>\<open>picture\<close>
  and \<^verbatim>\<open>isActive\<close>, which no unique index covers.
\<close>

definition save_loaded ::
  "int \<Rightarrow> IUser \<Rightarrow> IUser \<Rightarrow> IUser list \<Rightarrow> (error + IUser) \<times> IUser list" where
  "save_loaded now orig doc users =
     (if validate doc \<noteq> [] then (Inl (ValidationError (validate doc)), users)
      else
        let d = preSave (email doc \<noteq> email orig) doc in
        if d = orig then (Inr d, users)
        else (Inr (d\<lparr>updatedAt := now\<rparr>), replaceById (d\<lparr>updatedAt := now\<rparr>) users))"

section \<open>User service (services/users.ts)\<close>

text \<open>
  Every operation takes the collection and returns its result with the collection
  after the call; \<open>now\<close> is the clock and \<open>oid\<close> the \<^verbatim>\<open>_id\<close> a new document
  would get.
\<close>

definition createUser ::
  "int \<Rightarrow> object_id \<Rightarrow> CreateUserData \<Rightarrow> IUser list \<Rightarrow> (error + IUser) \<times> IUser list" where
  "createUser now oid userData users =
     (case findByEmail (c_email userData) users of
        Some existingUser \<Rightarrow>
          (Inl (Wrap ''Failed to create user''
                  (Error ''User already exists with this email'')), users)
      | None \<Rightarrow>
          (case save_new now (new_User oid userData) users of
             (Inl e, users') \<Rightarrow> (Inl (Wrap ''Failed to create user'' e), users')
           | (Inr user, users') \<Rightarrow> (Inr user, users')))"

definition getUserById :: "object_id \<Rightarrow> IUser list \<Rightarrow> UserDto option" where
  "getUserById uid users =
     (case findById uid users of None \<Rightarrow> None | Some user \<Rightarrow> Some (transformUserToDto user))"

definition assignFields :: "UpdateUserData \<Rightarrow> IUser \<Rightarrow> IUser" where
  "assignFields updateData user =
     (let u1 = (case upd_name updateData of None \<Rightarrow> user
                | Some n \<Rightarrow> user\<lparr>name := trim n\<rparr>);
          u2 = (case upd_picture updateData of None \<Rightarrow> u1
                | Some p \<Rightarrow> u1\<lparr>picture := Some p\<rparr>);
          u3 = (case upd_isActive updateData of None \<Rightarrow> u2
                | Some a \<Rightarrow> u2\<lparr>isActive := a\<rparr>)
      in u3)"

definition updateUser ::
  "int \<Rightarrow> object_id \<Rightarrow> UpdateUserData \<Rightarrow> IUser list \<Rightarrow> (error + IUser) \<times> IUser list" where
  "updateUser now uid updateData users =
     (case findById uid users of
        None \<Rightarrow> (Inl (Wrap ''Failed to update user'' (Error ''User not found'')), users)
      | Some user \<Rightarrow>
          (case save_loaded now user (assignFields updateData user) users of
             (Inl e, users') \<Rightarrow> (Inl (Wrap ''Failed to update user'' e), users')
           | (Inr saved, users') \<Rightarrow> (Inr saved, users')))"

definition deactivateUser ::
  "int \<Rightarrow> object_id \<Rightarrow> IUser list \<Rightarrow> (error + unit) \<times> IUser list" where
  "deactivateUser now uid users =
     (case findById uid users of
        None \<Rightarrow> (Inl (Wrap ''Failed to deactivate user'' (Error ''User not found'')), users)
      | Some user \<Rightarrow>
          (case save_loaded now user (user\<lparr>isActive := False\<rparr>) users of
             (Inl e, users') \<Rightarrow> (Inl (Wrap ''Failed to deactivate user'' e), users')
           | (Inr saved, users') \<Rightarrow> (Inr (), users')))"

record AuthResponse =
  user :: UserDto
  token :: token

definition authenticateWithGoogle ::
  "environment \<Rightarrow> externals \<Rightarrow> int \<Rightarrow> object_id \<Rightarrow> string \<Rightarrow> IUser list
     \<Rightarrow> (error + AuthResponse) \<times> IUser list" where
  "authenticateWithGoogle env ext now oid idToken users =
     (case verifyGoogleToken env ext idToken of
        Inl e \<Rightarrow> (Inl (Wrap ''Authentication failed'' e), users)
      | Inr googlePayload \<Rightarrow>
          if \<not> email_verified googlePayload
          then (Inl (Wrap ''Authentication failed''
                       (Error ''Email not verified with Google'')), users)
          else
            (case (case findByGoogleId (sub googlePayload) users of
                     None \<Rightarrow>
                       createUser now oid
                         \<lparr>c_googleId = sub googlePayload,
                          c_email = gp_email googlePayload,
                          c_name = gp_name googlePayload,
                          c_picture = gp_picture googlePayload\<rparr> users
                   | Some found \<Rightarrow>
                       updateUser now (u_id found)
                         \<lparr>upd_name = Some (gp_name googlePayload),
                          upd_picture = gp_picture googlePayload,
                          upd_isActive = None\<rparr> users) of
               (Inl e, users') \<Rightarrow> (Inl (Wrap ''Authentication failed'' e), users')
             | (Inr u, users') \<Rightarrow>
                 (Inr \<lparr>user = transformUserToDto u,
                       token = generateJwtToken env now (u_id u) (email u)\<rparr>, users')))"

section \<open>HTTP surface (middleware, controllers/users.ts, routes/users.ts)\<close>

text \<open>
  \<open>message_of\<close> is \<^verbatim>\<open>error.message\<close>; the texts that Mongoose and MongoDB
  produce are abbreviated.
\<close>

fun message_of :: "error \<Rightarrow> string" where
  "message_of (Error m) = m"
| "message_of (Wrap p e) = p @ '': '' @ message_of e"
| "message_of (ValidationError ps) = ''User validation failed''"
| "message_of (DuplicateKeyError path) = ''E11000 duplicate key error index: '' @ path"
| "message_of (LibraryError m) = m"
| "message_of (JsonWebTokenError m) = m"
| "message_of TokenExpiredError = ''jwt expired''"

datatype payload = AuthData AuthResponse | UserData UserDto | ExistsData "object_id option"

record response =
  status :: nat
  success :: bool
  message :: string
  data :: "payload option"
  error :: "string option"

definition failure :: "nat \<Rightarrow> string \<Rightarrow> string \<Rightarrow> response" where
  "failure code msg e =
     \<lparr>status = code, success = False, message = msg, data = None, error = Some e\<rparr>"

definition ok :: "string \<Rightarrow> payload option \<Rightarrow> response" where
  "ok msg d = \<lparr>status = 200, success = True, message = msg, data = d, error = None\<rparr>"

text \<open>
  The \<^verbatim>\<open>Authorization\<close> header: absent, \<^verbatim>\<open>"Bearer "\<close> followed by a token,
  or any other string.
\<close>

datatype authorization = NoHeader | Bearer token | OtherScheme string

definition authenticateToken ::
  "environment \<Rightarrow> int \<Rightarrow> authorization \<Rightarrow> IUser list \<Rightarrow> response + JwtPayload" where
  "authenticateToken env now authHeader users =
     (case (case authHeader of Bearer t \<Rightarrow> Some t | _ \<Rightarrow> None) of
        None \<Rightarrow> Inl (failure 401 ''Access token is required'' ''UNAUTHORIZED'')
      | Some t \<Rightarrow>
          if t = Malformed [] then Inl (failure 401 ''Access token is required'' ''UNAUTHORIZED'')
          else
            (case jwt_verify now t (jwtSecret env) of
               Inl e \<Rightarrow>
                 if isJsonWebTokenError e then Inl (failure 401 ''Invalid token'' ''UNAUTHORIZED'')
                 else Inl (failure 500 ''Internal server error during authentication''
                             ''INTERNAL_SERVER_ERROR'')
             | Inr decoded \<Rightarrow>
                 (case findById (userId decoded) users of
                    None \<Rightarrow> Inl (failure 401 ''Invalid or expired token'' ''UNAUTHORIZED'')
                  | Some u \<Rightarrow>
                      if \<not> isActive u
                      then Inl (failure 401 ''Invalid or expired token'' ''UNAUTHORIZED'')
                      else Inr \<lparr>userId = userId decoded, jp_email = jp_email decoded,
                                jp_iat = None, jp_exp = None\<rparr>)))"

fun join :: "string \<Rightarrow> string list \<Rightarrow> string" where
  "join sep [] = []"
| "join sep [x] = x"
| "join sep (x # y # ys) = x @ sep @ join sep (y # ys)"

text \<open>
  The Zod schemas as their \<^verbatim>\<open>safeParse\<close>: the issues (path and message), or
  the parsed data.
\<close>

definition GoogleAuthRequestSchema :: "string option \<Rightarrow> string list + string" where
  "GoogleAuthRequestSchema idToken =
     (case idToken of None \<Rightarrow> Inl [''idToken: Required'']
      | Some t \<Rightarrow> if length t < 1 then Inl [''idToken: ID token is required''] else Inr t)"

definition UpdateUserSchema :: "externals \<Rightarrow> UpdateUserData \<Rightarrow> string list + UpdateUserData" where
  "UpdateUserSchema ext body =
     (let issues =
        (case upd_name body of None \<Rightarrow> []
         | Some n \<Rightarrow> (if length n < 1 then [''name: Name is required''] else []) @
                     (if length n > 100 then [''name: Name too long''] else [])) @
        (case upd_picture body of None \<Rightarrow> []
         | Some p \<Rightarrow> if isUrl ext p then [] else [''picture: Invalid picture URL''])
      in if issues = [] then Inr body else Inl issues)"

definition EmailQuerySchema :: "externals \<Rightarrow> string option \<Rightarrow> string list + string" where
  "EmailQuerySchema ext q =
     (case q of None \<Rightarrow> Inl [''email: Required'']
      | Some e \<Rightarrow> if isEmail ext e then Inr e else Inl [''email: Invalid email format''])"

definition UserController_authenticateWithGoogle ::
  "environment \<Rightarrow> externals \<Rightarrow> int \<Rightarrow> object_id \<Rightarrow> string \<Rightarrow> IUser list
     \<Rightarrow> response \<times> IUser list" where
  "UserController_authenticateWithGoogle env ext now oid idToken users =
     (case authenticateWithGoogle env ext now oid idToken users of
        (Inr authResponse, users') \<Rightarrow>
          (ok ''Authentication successful'' (Some (AuthData authResponse)), users')
      | (Inl e, users') \<Rightarrow> (failure 401 ''Authentication failed'' (message_of e), users'))"

definition UserController_getCurrentUser ::
  "JwtPayload option \<Rightarrow> IUser list \<Rightarrow> response \<times> IUser list" where
  "UserController_getCurrentUser reqUser users =
     (case reqUser of
        None \<Rightarrow> (failure 401 ''User not authenticated'' ''UNAUTHORIZED'', users)
      | Some ju \<Rightarrow>
          (case getUserById (userId ju) users of
             None \<Rightarrow> (failure 404 ''User not found'' ''USER_NOT_FOUND'', users)
           | Some dto \<Rightarrow>
               (ok ''User profile retrieved successfully'' (Some (UserData dto)), users)))"

definition UserController_updateCurrentUser ::
  "int \<Rightarrow> JwtPayload option \<Rightarrow> UpdateUserData \<Rightarrow> IUser list \<Rightarrow> response \<times> IUser list" where
  "UserController_updateCurrentUser now reqUser updateData users =
     (case reqUser of
        None \<Rightarrow> (failure 401 ''User not authenticated'' ''UNAUTHORIZED'', users)
      | Some ju \<Rightarrow>
          (case updateUser now (userId ju) updateData users of
             (Inr updatedUser, users') \<Rightarrow>
               (ok ''User profile updated successfully''
                  (Some (UserData (transformUserToDto updatedUser))), users')
           | (Inl e, users') \<Rightarrow>
               (failure 500 ''Failed to update user profile'' (message_of e), users')))"

definition UserController_signOut :: "IUser list \<Rightarrow> response \<times> IUser list" where
  "UserController_signOut users =
     (ok ''Sign out successful. Please remove the token from client storage.'' None, users)"

definition UserController_deactivateCurrentUser ::
  "int \<Rightarrow> JwtPayload option \<Rightarrow> IUser list \<Rightarrow> response \<times> IUser list" where
  "UserController_deactivateCurrentUser now reqUser users =
     (case reqUser of
        None \<Rightarrow> (failure 401 ''User not authenticated'' ''UNAUTHORIZED'', users)
      | Some ju \<Rightarrow>
          (case deactivateUser now (userId ju) users of
             (Inr u, users') \<Rightarrow> (ok ''User account deactivated successfully'' None, users')
           | (Inl e, users') \<Rightarrow>
               (failure 500 ''Failed to deactivate user account'' (message_of e), users')))"

definition UserController_checkUserExists :: "string \<Rightarrow> IUser list \<Rightarrow> response \<times> IUser list" where
  "UserController_checkUserExists mail users =
     (if mail = [] then (failure 400 ''Email parameter is required'' ''MISSING_EMAIL'', users)
      else (ok ''User existence check completed''
              (Some (ExistsData (existsByEmail mail users))), users))"

text \<open>
  The routes. A request carries what its handler reads: the body or query, and the
  \<^verbatim>\<open>Authorization\<close> header on the routes behind \<^verbatim>\<open>authenticateToken\<close>.
\<close>

datatype request =
    PostAuthGoogle "string option"
  | PostAuthSignout authorization
  | GetProfile authorization
  | PutProfile authorization UpdateUserData
  | DeleteProfile authorization
  | GetExists "string option"

fun router ::
  "environment \<Rightarrow> externals \<Rightarrow> int \<Rightarrow> object_id \<Rightarrow> request \<Rightarrow> IUser list
     \<Rightarrow> response \<times> IUser list" where
  "router env ext now oid (PostAuthGoogle idToken) users =
     (case GoogleAuthRequestSchema idToken of
        Inl issues \<Rightarrow> (failure 400 ''Validation failed'' (join '', '' issues), users)
      | Inr t \<Rightarrow> UserController_authenticateWithGoogle env ext now oid t users)"
| "router env ext now oid (PostAuthSignout h) users =
     (case authenticateToken env now h users of
        Inl r \<Rightarrow> (r, users)
      | Inr ju \<Rightarrow> UserController_signOut users)"
| "router env ext now oid (GetProfile h) users =
     (case authenticateToken env now h users of
        Inl r \<Rightarrow> (r, users)
      | Inr ju \<Rightarrow> UserController_getCurrentUser (Some ju) users)"
| "router env ext now oid (PutProfile h body) users =
     (case authenticateToken env now h users of
        Inl r \<Rightarrow> (r, users)
      | Inr ju \<Rightarrow>
          (case UpdateUserSchema ext body of
             Inl issues \<Rightarrow> (failure 400 ''Validation failed'' (join '', '' issues), users)
           | Inr updateData \<Rightarrow> UserController_updateCurrentUser now (Some ju) updateData users))"
| "router env ext now oid (DeleteProfile h) users =
     (case authenticateToken env now h users of
        Inl r \<Rightarrow> (r, users)
      | Inr ju \<Rightarrow> UserController_deactivateCurrentUser now (Some ju) users)"
| "router env ext now oid (GetExists q) users =
     (case EmailQuerySchema ext q of
        Inl issues \<Rightarrow> (failure 400 ''Query validation failed'' (join '', '' issues), users)
      | Inr mail \<Rightarrow> UserController_checkUserExists mail users)"

text \<open>
  A run of the server: the requests are handled one after the other, each with the
  clock and the fresh \<^verbatim>\<open>_id\<close> of its moment.
\<close>

fun serve ::
  "environment \<Rightarrow> externals \<Rightarrow> (int \<times> object_id \<times> request) list \<Rightarrow> IUser list \<Rightarrow> IUser list" where
  "serve env ext [] users = users"
| "serve env ext ((now, oid, rq) # rest) users =
     serve env ext rest (snd (router env ext now oid rq users))"

section \<open>Invariant of the collection and auxiliary notions\<close>

text \<open>
  What the unique indexes, the setters and the validators of the schema maintain:
  no two documents share an \<^verbatim>\<open>_id\<close>, a \<^verbatim>\<open>googleId\<close> or an
  \<^verbatim>\<open>email\<close>, every document passes validation, and every stored email is in
  lower case and trimmed.
\<close>

definition store_inv :: "IUser list \<Rightarrow> bool" where
  "store_inv users \<longleftrightarrow>
     distinct (map u_id users) \<and> distinct (map googleId users) \<and>
     distinct (map email users) \<and>
     (\<forall>u \<in> set users. validate u = [] \<and> toLowerCase (email u) = email u
                       \<and> trim (email u) = email u)"

text \<open>
  \<open>untouched updateData u u'\<close>: the document \<open>u'\<close> differs from \<open>u\<close> at most in
  \<^verbatim>\<open>updatedAt\<close> and in the fields that \<open>updateData\<close> carries.
\<close>

definition untouched :: "UpdateUserData \<Rightarrow> IUser \<Rightarrow> IUser \<Rightarrow> bool" where
  "untouched updateData u u' \<longleftrightarrow>
     u_id u' = u_id u \<and> googleId u' = googleId u \<and> email u' = email u \<and>
     createdAt u' = createdAt u \<and>
     (upd_name updateData = None \<longrightarrow> name u' = name u) \<and>
     (upd_picture updateData = None \<longrightarrow> picture u' = picture u) \<and>
     (upd_isActive updateData = None \<longrightarrow> isActive u' = isActive u)"

text \<open>Calling \<open>deactivateUser\<close> for the same user at each of the given times.\<close>

fun deactivateRepeatedly :: "int list \<Rightarrow> object_id \<Rightarrow> IUser list \<Rightarrow> IUser list" where
  "deactivateRepeatedly [] uid users = users"
| "deactivateRepeatedly (t # ts) uid users =
     deactivateRepeatedly ts uid (snd (deactivateUser t uid users))"

section \<open>Example data\<close>

text \<open>Concrete inputs at which the theorems below are instantiated.\<close>

definition example_env :: environment where
  "example_env = \<lparr>jwtSecret = ''secret'', jwtExpiresIn = 604800, googleClientId = ''client''\<rparr>"

definition example_claims ::
  "string \<Rightarrow> string option \<Rightarrow> bool option \<Rightarrow> string option \<Rightarrow> string option \<Rightarrow> TokenPayload" where
  "example_claims s e v n p =
     \<lparr>tp_sub = s, tp_email = e, tp_email_verified = v, tp_name = n, tp_picture = p,
      tp_given_name = None, tp_family_name = None, tp_iat = 0, tp_exp = 3600,
      tp_aud = ''client'', tp_iss = ''accounts.google.com''\<rparr>"

definition example_ext :: "TokenPayload \<Rightarrow> externals" where
  "example_ext p =
     \<lparr>verifyIdToken = (\<lambda>t a. if t = ''assertion'' \<and> a = ''client'' then Inr (Some p)
                              else Inl ''Invalid token''),
      isUrl = (\<lambda>s. s \<noteq> []),
      isEmail = (\<lambda>s. CHR ''@'' \<in> set s)\<rparr>"

definition example_user :: IUser where
  "example_user =
     \<lparr>u_id = 1, googleId = ''g-1'', email = ''a@x.com'', name = ''A'',
      picture = Some ''p.png'', isActive = True, createdAt = 1000, updatedAt = 1000\<rparr>"

section \<open>Properties of the string functions\<close>

lemma lowerChar_idem: "lowerChar (lowerChar c) = lowerChar c"
  by (auto simp: lowerChar_def Let_def)

lemma toLowerCase_idem: "toLowerCase (toLowerCase s) = toLowerCase s"
  by (simp add: toLowerCase_def lowerChar_idem)

lemma isSpace_lowerChar: "isSpace (lowerChar c) = isSpace c"
  by (auto simp: lowerChar_def isSpace_def Let_def)

lemma dropWhile_isSpace_lower:
  "dropWhile isSpace (map lowerChar s) = map lowerChar (dropWhile isSpace s)"
  by (induction s) (simp_all add: isSpace_lowerChar)

lemma toLowerCase_trim: "toLowerCase (trim s) = trim (toLowerCase s)"
  by (simp add: toLowerCase_def trim_def rev_map dropWhile_isSpace_lower)

lemma dropWhile_self: "xs = [] \<or> \<not> P (hd xs) \<Longrightarrow> dropWhile P xs = xs"
  by (cases xs) auto

lemma dropWhile_rev_dropWhile_rev:
  assumes "a = [] \<or> \<not> P (hd a)"
  shows "dropWhile P (rev (dropWhile P (rev a))) = rev (dropWhile P (rev a))"
proof (cases "dropWhile P (rev a) = []")
  case True
  then show ?thesis by (simp only: rev.simps dropWhile.simps)
next
  case False
  define t where "t = dropWhile P (rev a)"
  have ne: "t \<noteq> []" using False by (simp add: t_def)
  have "rev a = takeWhile P (rev a) @ t" by (simp add: t_def)
  then have "last (rev a) = last t" using ne by (metis last_appendR)
  moreover have "a \<noteq> []" using False by auto
  ultimately have "last t = hd a" by (simp add: last_rev)
  then have "\<not> P (hd (rev t))" using assms \<open>a \<noteq> []\<close> ne by (simp add: hd_rev)
  then show ?thesis unfolding t_def[symmetric] by (intro dropWhile_self) simp
qed

lemma trim_idem: "trim (trim s) = trim s"
proof -
  have "dropWhile isSpace s = [] \<or> \<not> isSpace (hd (dropWhile isSpace s))"
    by (metis hd_dropWhile)
  from dropWhile_rev_dropWhile_rev[of "dropWhile isSpace s" isSpace, OF this] show ?thesis
    by (simp add: trim_def)
qed

section \<open>Properties of the store, the services and the routes\<close>

lemma find_id_mem: "find P xs = Some r \<Longrightarrow> r \<in> set xs \<and> P r"
  by (induction xs) (auto split: if_splits)

lemma findById_Some: "findById i users = Some r \<Longrightarrow> r \<in> set users \<and> u_id r = i"
  unfolding findById_def by (drule find_id_mem) simp

lemma findById_distinct:
  "distinct (map u_id users) \<Longrightarrow> r \<in> set users \<Longrightarrow> findById (u_id r) users = Some r"
  unfolding findById_def by (induction users) auto

lemma replaceById_ids: "map u_id (replaceById d users) = map u_id users"
  by (induction users) auto

lemma replaceById_other:
  "r \<in> set users \<Longrightarrow> u_id r \<noteq> u_id d \<Longrightarrow> r \<in> set (replaceById d users)"
  by (induction users) auto

lemma replaceById_set:
  "set (replaceById d users) \<subseteq> insert d (set users)"
  by (induction users) auto

lemma replaceById_rel:
  assumes "findById (u_id d) users = Some r" "R r d" "\<And>u. R u u"
  shows "list_all2 R users (replaceById d users)"
  using assms(1) unfolding findById_def
  by (induction users) (auto simp: assms(2,3) list_all2_refl split: if_splits)

lemma replaceById_find:
  "findById i users = Some r \<Longrightarrow> u_id d = i \<Longrightarrow> findById i (replaceById d users) = Some d"
  unfolding findById_def by (induction users) (auto split: if_splits)

lemma assignFields_fixed:
  "u_id (assignFields upd u) = u_id u" "googleId (assignFields upd u) = googleId u"
  "email (assignFields upd u) = email u" "createdAt (assignFields upd u) = createdAt u"
  "updatedAt (assignFields upd u) = updatedAt u"
  by (simp_all add: assignFields_def Let_def split: option.splits)

lemma untouched_assignFields: "untouched upd u ((assignFields upd u)\<lparr>updatedAt := t\<rparr>)"
  by (simp add: untouched_def assignFields_def Let_def split: option.splits)

lemma untouched_refl: "untouched upd u u"
  by (simp add: untouched_def)

lemma assignFields_empty:
  "assignFields \<lparr>upd_name = None, upd_picture = None, upd_isActive = None\<rparr> u = u"
  by (simp add: assignFields_def)

lemma save_loaded_same:
  "save_loaded now u u users = (if validate u \<noteq> [] then Inl (ValidationError (validate u)) else Inr u, users)"
  by (simp add: save_loaded_def preSave_def)

lemma updateUser_snd:
  "snd (updateUser now uid upd users) =
     (case findById uid users of None \<Rightarrow> users
      | Some u \<Rightarrow> if validate (assignFields upd u) = [] \<and> assignFields upd u \<noteq> u
                  then replaceById ((assignFields upd u)\<lparr>updatedAt := now\<rparr>) users else users)"
  by (auto simp: updateUser_def save_loaded_def preSave_def Let_def assignFields_fixed
      split: option.splits prod.splits sum.splits)

lemma updateUser_untouched: "list_all2 (untouched upd) users (snd (updateUser now uid upd users))"
proof (cases "findById uid users")
  case None
  then show ?thesis by (simp add: updateUser_snd list_all2_refl untouched_refl)
next
  case (Some u)
  then have "u_id u = uid" by (simp add: findById_Some)
  then have "findById (u_id ((assignFields upd u)\<lparr>updatedAt := now\<rparr>)) users = Some u"
    using Some by (simp add: assignFields_fixed)
  from replaceById_rel[OF this, of "untouched upd"] Some show ?thesis
    by (simp add: updateUser_snd list_all2_refl untouched_refl untouched_assignFields)
qed

lemma updateUser_empty:
  "updateUser now uid \<lparr>upd_name = None, upd_picture = None, upd_isActive = None\<rparr> users =
     (case findById uid users of
        None \<Rightarrow> (Inl (Wrap ''Failed to update user'' (Error ''User not found'')), users)
      | Some u \<Rightarrow> if validate u = [] then (Inr u, users)
                  else (Inl (Wrap ''Failed to update user'' (ValidationError (validate u))), users))"
  by (simp add: updateUser_def assignFields_empty save_loaded_same split: option.splits)

lemma find_Some_ex: "P r \<Longrightarrow> r \<in> set xs \<Longrightarrow> \<exists>y. find P xs = Some y"
  by (induction xs) auto

lemma validate_Nil_iff:
  "validate u = [] \<longleftrightarrow> googleId u \<noteq> [] \<and> email u \<noteq> [] \<and> name u \<noteq> [] \<and> length (name u) \<le> 100"
  by (auto simp: validate_def)

lemma validate_updatedAt [simp]: "validate (u\<lparr>updatedAt := t\<rparr>) = validate u"
  by (simp add: validate_def)

lemma validate_isActive [simp]: "validate (u\<lparr>isActive := b\<rparr>) = validate u"
  by (simp add: validate_def)

lemma preSave_new_User:
  "(preSave True (new_User oid d))\<lparr>createdAt := now, updatedAt := now\<rparr> =
     \<lparr>u_id = oid, googleId = c_googleId d, email = trim (toLowerCase (c_email d)),
      name = trim (c_name d), picture = c_picture d, isActive = True,
      createdAt = now, updatedAt = now\<rparr>"
  by (simp add: preSave_def new_User_def toLowerCase_trim toLowerCase_idem)

lemma save_new_cases:
  "save_new now (new_User oid d) users =
     (if validate (new_User oid d) \<noteq> [] then (Inl (ValidationError (validate (new_User oid d))), users)
      else if oid \<in> set (map u_id users) then (Inl (DuplicateKeyError ''_id''), users)
      else if c_googleId d \<in> set (map googleId users) then (Inl (DuplicateKeyError ''googleId''), users)
      else if trim (toLowerCase (c_email d)) \<in> set (map email users)
        then (Inl (DuplicateKeyError ''email''), users)
      else (Inr \<lparr>u_id = oid, googleId = c_googleId d, email = trim (toLowerCase (c_email d)),
                 name = trim (c_name d), picture = c_picture d, isActive = True,
                 createdAt = now, updatedAt = now\<rparr>,
            users @ [\<lparr>u_id = oid, googleId = c_googleId d, email = trim (toLowerCase (c_email d)),
                 name = trim (c_name d), picture = c_picture d, isActive = True,
                 createdAt = now, updatedAt = now\<rparr>]))"
  unfolding save_new_def Let_def preSave_new_User by simp

lemma createUser_snd_cases:
  "snd (createUser now oid d users) = users \<or>
   (validate (new_User oid d) = [] \<and> oid \<notin> set (map u_id users) \<and>
    c_googleId d \<notin> set (map googleId users) \<and>
    trim (toLowerCase (c_email d)) \<notin> set (map email users) \<and>
    snd (createUser now oid d users) =
      users @ [\<lparr>u_id = oid, googleId = c_googleId d, email = trim (toLowerCase (c_email d)),
                 name = trim (c_name d), picture = c_picture d, isActive = True,
                 createdAt = now, updatedAt = now\<rparr>])"
  by (simp add: createUser_def save_new_cases split: option.splits)

lemma store_inv_append:
  assumes "store_inv users" "validate (new_User oid d) = []" "oid \<notin> set (map u_id users)"
    "c_googleId d \<notin> set (map googleId users)"
    "trim (toLowerCase (c_email d)) \<notin> set (map email users)"
  shows "store_inv (users @ [\<lparr>u_id = oid, googleId = c_googleId d, email = trim (toLowerCase (c_email d)),
                 name = trim (c_name d), picture = c_picture d, isActive = True,
                 createdAt = now, updatedAt = now\<rparr>])"
  using assms
  by (auto simp: store_inv_def validate_Nil_iff new_User_def toLowerCase_trim toLowerCase_idem trim_idem)

lemma store_inv_createUser:
  assumes "store_inv users"
  shows "store_inv (snd (createUser now oid d users))"
proof -
  from createUser_snd_cases[of now oid d users] show ?thesis
  proof
    assume "snd (createUser now oid d users) = users"
    then show ?thesis using assms by simp
  next
    assume a: "validate (new_User oid d) = [] \<and> oid \<notin> set (map u_id users) \<and>
      c_googleId d \<notin> set (map googleId users) \<and>
      trim (toLowerCase (c_email d)) \<notin> set (map email users) \<and>
      snd (createUser now oid d users) =
        users @ [\<lparr>u_id = oid, googleId = c_googleId d, email = trim (toLowerCase (c_email d)),
                 name = trim (c_name d), picture = c_picture d, isActive = True,
                 createdAt = now, updatedAt = now\<rparr>]"
    then show ?thesis using store_inv_append[OF assms, of oid d now] by simp
  qed
qed

lemma map_replaceById:
  "findById (u_id d) users = Some r \<Longrightarrow> f r = f d \<Longrightarrow> map f (replaceById d users) = map f users"
  unfolding findById_def by (induction users) (auto split: if_splits)

lemma store_inv_replace:
  assumes "store_inv users" "findById (u_id d) users = Some r"
    "googleId d = googleId r" "email d = email r" "validate d = []"
  shows "store_inv (replaceById d users)"
proof -
  have "map u_id (replaceById d users) = map u_id users" by (rule replaceById_ids)
  moreover have "map googleId (replaceById d users) = map googleId users"
    using assms by (simp add: map_replaceById)
  moreover have "map email (replaceById d users) = map email users"
    using assms by (simp add: map_replaceById)
  moreover have "r \<in> set users" using assms(2) by (simp add: findById_Some)
  moreover have "set (replaceById d users) \<subseteq> insert d (set users)" by (rule replaceById_set)
  ultimately show ?thesis using assms unfolding store_inv_def
    by (metis insert_iff subsetD)
qed

lemma store_inv_updateUser: "store_inv users \<Longrightarrow> store_inv (snd (updateUser now uid upd users))"
  by (auto simp: updateUser_snd assignFields_fixed findById_Some
      intro!: store_inv_replace split: option.splits)

lemma deactivateUser_snd:
  "snd (deactivateUser now uid users) =
     (case findById uid users of None \<Rightarrow> users
      | Some u \<Rightarrow> if validate u = [] \<and> isActive u
                  then replaceById (u\<lparr>isActive := False, updatedAt := now\<rparr>) users else users)"
proof (cases "findById uid users")
  case None
  then show ?thesis by (simp add: deactivateUser_def)
next
  case (Some u)
  have "(u\<lparr>isActive := False\<rparr> = u) = (\<not> isActive u)"
    by (cases u) auto
  then show ?thesis using Some
    by (auto simp: deactivateUser_def save_loaded_def preSave_def Let_def split: prod.splits sum.splits)
qed

lemma store_inv_deactivateUser: "store_inv users \<Longrightarrow> store_inv (snd (deactivateUser now uid users))"
  by (auto simp: deactivateUser_snd findById_Some
      intro!: store_inv_replace split: option.splits)

lemma deactivateUser_inactive:
  "findById uid users = Some u \<Longrightarrow> \<not> isActive u \<Longrightarrow> snd (deactivateUser now uid users) = users"
  by (simp add: deactivateUser_snd)

lemma deactivateRepeatedly_inactive:
  "findById uid users = Some u \<Longrightarrow> \<not> isActive u \<Longrightarrow> deactivateRepeatedly ts uid users = users"
  by (induction ts) (simp_all add: deactivateUser_inactive)

lemma deactivateUser_result:
  assumes "findById uid users = Some r" "validate r = []"
  shows "\<exists>r'. findById uid (snd (deactivateUser now uid users)) = Some r' \<and> \<not> isActive r'
            \<and> r'\<lparr>updatedAt := updatedAt r\<rparr> = r\<lparr>isActive := False\<rparr>"
proof (cases "isActive r")
  case True
  have "findById uid (replaceById (r\<lparr>isActive := False, updatedAt := now\<rparr>) users) =
          Some (r\<lparr>isActive := False, updatedAt := now\<rparr>)"
    using assms(1) by (intro replaceById_find) (simp_all add: findById_Some)
  then show ?thesis using assms True by (simp add: deactivateUser_snd)
next
  case False
  then show ?thesis using assms by (simp add: deactivateUser_snd)
qed

lemma jwt_verify_Inl: "jwt_verify now t s = Inl e \<Longrightarrow> isJsonWebTokenError e"
  by (auto simp: jwt_verify_def split: token.splits option.splits if_splits)

lemma jwt_verify_Inr: "jwt_verify now (Jwt p sg) s = Inr d \<Longrightarrow> d = p"
  by (auto simp: jwt_verify_def split: option.splits if_splits)

lemma authenticateToken_inactive:
  assumes "findById (userId p) users = Some u" "\<not> isActive u"
  shows "authenticateToken env now (Bearer (Jwt p sg)) users =
           Inl (failure 401 ''Invalid token'' ''UNAUTHORIZED'') \<or>
         authenticateToken env now (Bearer (Jwt p sg)) users =
           Inl (failure 401 ''Invalid or expired token'' ''UNAUTHORIZED'')"
proof (cases "jwt_verify now (Jwt p sg) (jwtSecret env)")
  case (Inl e)
  then show ?thesis by (simp add: authenticateToken_def jwt_verify_Inl)
next
  case (Inr d)
  then have "d = p" by (rule jwt_verify_Inr)
  then show ?thesis using Inr assms by (simp add: authenticateToken_def)
qed

lemma authenticateToken_Inr:
  "authenticateToken env now h users = Inr ju \<Longrightarrow>
     \<exists>u. findById (userId ju) users = Some u \<and> isActive u"
  by (auto simp: authenticateToken_def split: authorization.splits option.splits if_splits sum.splits)

lemma findByGoogleId_Some:
  "findByGoogleId g users = Some u \<Longrightarrow> u \<in> set users \<and> googleId u = g \<and> isActive u"
  unfolding findByGoogleId_def by (drule find_id_mem) simp

lemma createUser_keeps:
  assumes "distinct (map u_id users)"
  shows "distinct (map u_id (snd (createUser now oid d users))) \<and>
         set users \<subseteq> set (snd (createUser now oid d users))"
  using createUser_snd_cases[of now oid d users] assms by auto

lemma inactive_other_id:
  assumes "distinct (map u_id users)" "r \<in> set users" "\<not> isActive r"
    "findById uid users = Some u" "isActive u"
  shows "u_id r \<noteq> uid"
proof
  assume "u_id r = uid"
  then have "findById uid users = Some r" using assms(1,2) findById_distinct by blast
  then show False using assms by simp
qed

lemma updateUser_keeps:
  assumes "distinct (map u_id users)" "r \<in> set users" "\<not> isActive r"
    "findById uid users = Some u" "isActive u"
  shows "distinct (map u_id (snd (updateUser now uid upd users))) \<and>
         r \<in> set (snd (updateUser now uid upd users))"
proof -
  have "u_id r \<noteq> uid" using assms by (rule inactive_other_id)
  moreover have "u_id u = uid" using assms(4) by (simp add: findById_Some)
  ultimately show ?thesis using assms
    by (auto simp: updateUser_snd replaceById_ids assignFields_fixed intro!: replaceById_other)
qed

lemma deactivateUser_keeps:
  assumes "distinct (map u_id users)" "r \<in> set users" "\<not> isActive r"
    "findById uid users = Some u" "isActive u"
  shows "distinct (map u_id (snd (deactivateUser now uid users))) \<and>
         r \<in> set (snd (deactivateUser now uid users))"
proof -
  have "u_id r \<noteq> uid" using assms by (rule inactive_other_id)
  moreover have "u_id u = uid" using assms(4) by (simp add: findById_Some)
  ultimately show ?thesis using assms
    by (auto simp: deactivateUser_snd replaceById_ids intro!: replaceById_other)
qed

lemma authenticateWithGoogle_snd:
  "snd (authenticateWithGoogle env ext now oid idToken users) =
     (case verifyGoogleToken env ext idToken of
        Inl e \<Rightarrow> users
      | Inr gp \<Rightarrow>
          if \<not> email_verified gp then users
          else (case findByGoogleId (sub gp) users of
                  None \<Rightarrow> snd (createUser now oid
                               \<lparr>c_googleId = sub gp, c_email = gp_email gp,
                                c_name = gp_name gp, c_picture = gp_picture gp\<rparr> users)
                | Some found \<Rightarrow> snd (updateUser now (u_id found)
                               \<lparr>upd_name = Some (gp_name gp), upd_picture = gp_picture gp,
                                upd_isActive = None\<rparr> users)))"
  by (simp add: authenticateWithGoogle_def split: sum.splits option.splits prod.splits)

lemma authenticateWithGoogle_keeps:
  assumes "distinct (map u_id users)" "r \<in> set users" "\<not> isActive r"
  shows "distinct (map u_id (snd (authenticateWithGoogle env ext now oid idToken users))) \<and>
         r \<in> set (snd (authenticateWithGoogle env ext now oid idToken users))"
proof (cases "verifyGoogleToken env ext idToken")
  case (Inl e)
  then show ?thesis using assms by (simp add: authenticateWithGoogle_snd)
next
  case (Inr gp)
  show ?thesis
  proof (cases "email_verified gp")
    case False
    then show ?thesis using Inr assms by (simp add: authenticateWithGoogle_snd)
  next
    case True
    show ?thesis
    proof (cases "findByGoogleId (sub gp) users")
      case None
      then show ?thesis using Inr True assms createUser_keeps[OF assms(1)]
        by (auto simp: authenticateWithGoogle_snd)
    next
      case (Some found)
      then have f: "found \<in> set users" "isActive found" by (simp_all add: findByGoogleId_Some)
      then have "findById (u_id found) users = Some found"
        using assms(1) by (simp add: findById_distinct)
      from updateUser_keeps[OF assms this f(2)] show ?thesis using Inr True Some
        by (simp add: authenticateWithGoogle_snd)
    qed
  qed
qed

lemma UserController_authenticateWithGoogle_snd:
  "snd (UserController_authenticateWithGoogle env ext now oid t users) =
     snd (authenticateWithGoogle env ext now oid t users)"
  by (simp add: UserController_authenticateWithGoogle_def split: prod.splits sum.splits)

lemma UserController_updateCurrentUser_snd:
  "snd (UserController_updateCurrentUser now (Some ju) upd users) =
     snd (updateUser now (userId ju) upd users)"
  by (simp add: UserController_updateCurrentUser_def split: prod.splits sum.splits)

lemma UserController_deactivateCurrentUser_snd:
  "snd (UserController_deactivateCurrentUser now (Some ju) users) =
     snd (deactivateUser now (userId ju) users)"
  by (simp add: UserController_deactivateCurrentUser_def split: prod.splits sum.splits)

lemma router_keeps:
  assumes "distinct (map u_id users)" "r \<in> set users" "\<not> isActive r"
  shows "distinct (map u_id (snd (router env ext now oid rq users))) \<and>
         r \<in> set (snd (router env ext now oid rq users))"
proof (cases rq)
  case (PostAuthGoogle idToken)
  then show ?thesis using assms authenticateWithGoogle_keeps[OF assms]
    by (cases "GoogleAuthRequestSchema idToken")
       (simp_all add: UserController_authenticateWithGoogle_snd)
next
  case (PostAuthSignout h)
  then show ?thesis using assms
    by (auto simp: UserController_signOut_def split: sum.splits)
next
  case (GetProfile h)
  then show ?thesis using assms
    by (auto simp: UserController_getCurrentUser_def split: sum.splits option.splits)
next
  case (PutProfile h body)
  show ?thesis
  proof (cases "authenticateToken env now h users")
    case (Inl resp)
    then show ?thesis using PutProfile assms by simp
  next
    case (Inr ju)
    then obtain u where "findById (userId ju) users = Some u" "isActive u"
      using authenticateToken_Inr by blast
    from updateUser_keeps[OF assms this] show ?thesis using PutProfile Inr assms
      by (cases "UpdateUserSchema ext body")
         (simp_all add: UserController_updateCurrentUser_snd)
  qed
next
  case (DeleteProfile h)
  show ?thesis
  proof (cases "authenticateToken env now h users")
    case (Inl resp)
    then show ?thesis using DeleteProfile assms by simp
  next
    case (Inr ju)
    then obtain u where "findById (userId ju) users = Some u" "isActive u"
      using authenticateToken_Inr by blast
    from deactivateUser_keeps[OF assms this] show ?thesis using DeleteProfile Inr assms
      by (simp add: UserController_deactivateCurrentUser_snd)
  qed
next
  case (GetExists q)
  then show ?thesis using assms
    by (auto simp: UserController_checkUserExists_def split: sum.splits)
qed



lemma store_inv_example: "store_inv [example_user]"
  unfolding store_inv_def by code_simp

lemma findByEmail_None:
  assumes "trim (toLowerCase e) \<notin> set (map email users)"
  shows "findByEmail e users = None"
  using assms by (force simp: findByEmail_def find_None_iff)

lemma updateUser_keys:
  "map u_id (snd (updateUser now uid upd users)) = map u_id users \<and>
   map googleId (snd (updateUser now uid upd users)) = map googleId users \<and>
   map email (snd (updateUser now uid upd users)) = map email users"
proof (cases "findById uid users")
  case None
  then show ?thesis by (simp add: updateUser_snd)
next
  case (Some u)
  then have "findById (u_id ((assignFields upd u)\<lparr>updatedAt := now\<rparr>)) users = Some u"
    by (simp add: assignFields_fixed findById_Some)
  then show ?thesis using Some
    by (simp add: updateUser_snd map_replaceById assignFields_fixed)
qed

lemma createUser_known_googleId:
  "c_googleId d \<in> set (map googleId users) \<Longrightarrow> snd (createUser now oid d users) = users"
  using createUser_snd_cases[of now oid d users] by auto

lemma updateUser_found:
  assumes "findById uid users = Some u" "validate (assignFields upd u) = []"
  shows "updateUser now uid upd users =
           (if assignFields upd u = u then (Inr u, users)
            else (Inr ((assignFields upd u)\<lparr>updatedAt := now\<rparr>),
                  replaceById ((assignFields upd u)\<lparr>updatedAt := now\<rparr>) users))"
  using assms
  by (simp add: updateUser_def save_loaded_def preSave_def assignFields_fixed Let_def)

text \<open>
  The invariant holds of the empty collection and every request keeps it, so it holds
  of every collection the server reaches.
\<close>

lemma store_inv_Nil: "store_inv []"
  by (simp add: store_inv_def)

lemma store_inv_authenticateWithGoogle:
  "store_inv users \<Longrightarrow> store_inv (snd (authenticateWithGoogle env ext now oid idToken users))"
  by (simp add: authenticateWithGoogle_snd store_inv_createUser store_inv_updateUser
      split: sum.splits option.splits)

lemma store_inv_router:
  assumes "store_inv users"
  shows "store_inv (snd (router env ext now oid rq users))"
proof (cases rq)
  case (PostAuthGoogle idToken)
  then show ?thesis using assms
    by (cases "GoogleAuthRequestSchema idToken")
       (simp_all add: UserController_authenticateWithGoogle_snd store_inv_authenticateWithGoogle)
next
  case (PostAuthSignout h)
  then show ?thesis using assms
    by (auto simp: UserController_signOut_def split: sum.splits)
next
  case (GetProfile h)
  then show ?thesis using assms
    by (auto simp: UserController_getCurrentUser_def split: sum.splits option.splits)
next
  case (PutProfile h body)
  then show ?thesis using assms
    by (cases "authenticateToken env now h users"; cases "UpdateUserSchema ext body")
       (simp_all add: UserController_updateCurrentUser_snd store_inv_updateUser)
next
  case (DeleteProfile h)
  then show ?thesis using assms
    by (cases "authenticateToken env now h users")
       (simp_all add: UserController_deactivateCurrentUser_snd store_inv_deactivateUser)
next
  case (GetExists q)
  then show ?thesis using assms
    by (auto simp: UserController_checkUserExists_def split: sum.splits)
qed

lemma store_inv_serve: "store_inv users \<Longrightarrow> store_inv (serve env ext reqs users)"
proof (induction reqs arbitrary: users)
  case Nil
  then show ?case by simp
next
  case (Cons rq reqs)
  obtain now oid q where rq: "rq = (now, oid, q)" by (cases rq)
  show ?case using Cons.IH[OF store_inv_router[OF Cons.prems, of env ext now oid q]]
    by (simp add: rq)
qed

lemma verify_generate:
  "verifyJwtToken env now' (generateJwtToken env now uid mail) =
     (if now' div 1000 \<ge> now div 1000 + jwtExpiresIn env then Inl TokenExpiredError
      else Inr \<lparr>userId = uid, jp_email = mail, jp_iat = Some (now div 1000),
                jp_exp = Some (now div 1000 + jwtExpiresIn env)\<rparr>)"
  by (simp add: verifyJwtToken_def generateJwtToken_def jwt_verify_def jwt_sign_def Let_def)

section \<open>C1: First authentication\<close>

text \<open>
  C1, as amended. Let the verifier return a payload with a verified email, a non-empty
  subject id, an email that is non-empty once lower-cased and trimmed, and a name that
  is non-empty and at most 100 characters once trimmed. If no document of the collection
  holds that subject id or that normalised email, and \<open>oid\<close> is a fresh
  \<^verbatim>\<open>_id\<close>, then \<open>authenticateWithGoogle\<close> appends exactly one document, active
  and populated from the claims (email lower-cased and trimmed, name trimmed), and
  returns a token that \<open>verifyJwtToken\<close> accepts at every time before its expiry and
  decodes to the \<^verbatim>\<open>_id\<close> and the email of that document. The collection keeps its
  invariant.
\<close>

theorem first_authentication_creates_user:
  assumes "store_inv users"
    and "verifyGoogleToken env ext idToken = Inr gp" and "email_verified gp"
    and "sub gp \<notin> set (map googleId users)"
    and "trim (toLowerCase (gp_email gp)) \<notin> set (map email users)"
    and "oid \<notin> set (map u_id users)"
    and "sub gp \<noteq> []" and "trim (toLowerCase (gp_email gp)) \<noteq> []"
    and "trim (gp_name gp) \<noteq> []" and "length (trim (gp_name gp)) \<le> 100"
  shows "\<exists>r. authenticateWithGoogle env ext now oid idToken users =
               (Inr \<lparr>user = transformUserToDto r,
                     token = generateJwtToken env now (u_id r) (email r)\<rparr>, users @ [r])
           \<and> r = \<lparr>u_id = oid, googleId = sub gp, email = trim (toLowerCase (gp_email gp)),
                   name = trim (gp_name gp), picture = gp_picture gp, isActive = True,
                   createdAt = now, updatedAt = now\<rparr>
           \<and> (\<forall>now'. now' div 1000 < now div 1000 + jwtExpiresIn env \<longrightarrow>
                 (\<exists>p. verifyJwtToken env now' (generateJwtToken env now (u_id r) (email r)) = Inr p
                       \<and> userId p = u_id r \<and> jp_email p = email r))
           \<and> store_inv (users @ [r])"
proof -
  let ?d = "\<lparr>c_googleId = sub gp, c_email = gp_email gp, c_name = gp_name gp,
             c_picture = gp_picture gp\<rparr>"
  let ?r = "\<lparr>u_id = oid, googleId = sub gp, email = trim (toLowerCase (gp_email gp)),
             name = trim (gp_name gp), picture = gp_picture gp, isActive = True,
             createdAt = now, updatedAt = now\<rparr>"
  have g: "findByGoogleId (sub gp) users = None"
    using assms(4) by (force simp: findByGoogleId_def find_None_iff)
  have e: "findByEmail (c_email ?d) users = None"
    using assms(5) by (intro findByEmail_None) simp
  have v: "validate (new_User oid ?d) = []"
    using assms(7-10) by (simp add: validate_Nil_iff new_User_def)
  have c: "createUser now oid ?d users = (Inr ?r, users @ [?r])"
    using e v assms(4,5,6) by (simp add: createUser_def save_new_cases)
  have a: "authenticateWithGoogle env ext now oid idToken users =
             (Inr \<lparr>user = transformUserToDto ?r,
                   token = generateJwtToken env now (u_id ?r) (email ?r)\<rparr>, users @ [?r])"
    using assms(2,3) g c by (simp add: authenticateWithGoogle_def)
  have i: "store_inv (users @ [?r])"
    using store_inv_append[OF assms(1), of oid ?d now] v assms(4,5,6) by simp
  have t: "\<forall>now'. now' div 1000 < now div 1000 + jwtExpiresIn env \<longrightarrow>
             (\<exists>p. verifyJwtToken env now' (generateJwtToken env now (u_id ?r) (email ?r)) = Inr p
                   \<and> userId p = u_id ?r \<and> jp_email p = email ?r)"
    by (simp add: verify_generate)
  from a i t show ?thesis by blast
qed

text \<open>
  The theorem of C1 at the example collection and an assertion for a new subject id
  with the unused email \<^verbatim>\<open>B@x.com\<close>.
\<close>

theorem first_authentication_creates_user_witness:
  "store_inv [example_user]
   \<and> verifyGoogleToken example_env
       (example_ext (example_claims ''g-2'' (Some ''B@x.com'') (Some True) (Some ''B'') None)) ''assertion''
     = Inr \<lparr>sub = ''g-2'', gp_email = ''B@x.com'', email_verified = True, gp_name = ''B'',
            gp_picture = None, given_name = None, family_name = None, iat = 0, exp = 3600,
            aud = ''client'', iss = ''accounts.google.com''\<rparr>
   \<and> (\<exists>r. authenticateWithGoogle example_env
              (example_ext (example_claims ''g-2'' (Some ''B@x.com'') (Some True) (Some ''B'') None))
              5000 2 ''assertion'' [example_user]
            = (Inr \<lparr>user = transformUserToDto r,
                    token = generateJwtToken example_env 5000 (u_id r) (email r)\<rparr>,
               [example_user] @ [r])
          \<and> r = \<lparr>u_id = 2, googleId = ''g-2'', email = ''b@x.com'', name = ''B'', picture = None,
                  isActive = True, createdAt = 5000, updatedAt = 5000\<rparr>)"
proof -
  let ?ext = "example_ext (example_claims ''g-2'' (Some ''B@x.com'') (Some True) (Some ''B'') None)"
  let ?gp = "\<lparr>sub = ''g-2'', gp_email = ''B@x.com'', email_verified = True, gp_name = ''B'',
            gp_picture = None, given_name = None, family_name = None, iat = 0, exp = 3600,
            aud = ''client'', iss = ''accounts.google.com''\<rparr>"
  have h1: "store_inv [example_user]" by (rule store_inv_example)
  have h2: "verifyGoogleToken example_env ?ext ''assertion'' = Inr ?gp" by code_simp
  have h3: "email_verified ?gp" by simp
  have h4: "sub ?gp \<notin> set (map googleId [example_user])" by code_simp
  have e: "trim (toLowerCase (gp_email ?gp)) = ''b@x.com''" by code_simp
  have n: "trim (gp_name ?gp) = ''B''" by code_simp
  have h5: "trim (toLowerCase (gp_email ?gp)) \<notin> set (map email [example_user])" by code_simp
  have h6: "2 \<notin> set (map u_id [example_user])" by code_simp
  have h7: "sub ?gp \<noteq> []" by simp
  have h8: "trim (toLowerCase (gp_email ?gp)) \<noteq> []" by code_simp
  have h9: "trim (gp_name ?gp) \<noteq> []" by code_simp
  have h10: "length (trim (gp_name ?gp)) \<le> 100" by code_simp
  from first_authentication_creates_user[OF h1 h2 h3 h4 h5 h6 h7 h8 h9 h10, of 5000]
  obtain r where r: "authenticateWithGoogle example_env ?ext 5000 2 ''assertion'' [example_user] =
               (Inr \<lparr>user = transformUserToDto r,
                     token = generateJwtToken example_env 5000 (u_id r) (email r)\<rparr>, [example_user] @ [r])"
     "r = \<lparr>u_id = 2, googleId = sub ?gp, email = trim (toLowerCase (gp_email ?gp)),
                   name = trim (gp_name ?gp), picture = gp_picture ?gp, isActive = True,
                   createdAt = 5000, updatedAt = 5000\<rparr>" by blast
  have "r = \<lparr>u_id = 2, googleId = ''g-2'', email = ''b@x.com'', name = ''B'', picture = None,
                  isActive = True, createdAt = 5000, updatedAt = 5000\<rparr>"
    unfolding r(2) e n by simp
  with r(1) h1 h2 show ?thesis by blast
qed

text \<open>
  C1 as stated fails: the subject id \<^verbatim>\<open>g-2\<close> was never seen and its email is
  verified, but the email belongs to the active document of \<^verbatim>\<open>g-1\<close>; the guard of
  \<open>createUser\<close> throws, no document is created and no token is returned.
\<close>

theorem first_authentication_counterexample:
  "verifyGoogleToken example_env
       (example_ext (example_claims ''g-2'' (Some ''a@x.com'') (Some True) (Some ''B'') None)) ''assertion''
     = Inr \<lparr>sub = ''g-2'', gp_email = ''a@x.com'', email_verified = True, gp_name = ''B'',
            gp_picture = None, given_name = None, family_name = None, iat = 0, exp = 3600,
            aud = ''client'', iss = ''accounts.google.com''\<rparr>
   \<and> ''g-2'' \<notin> set (map googleId [example_user])
   \<and> authenticateWithGoogle example_env
        (example_ext (example_claims ''g-2'' (Some ''a@x.com'') (Some True) (Some ''B'') None))
        5000 2 ''assertion'' [example_user]
     = (Inl (Wrap ''Authentication failed''
              (Wrap ''Failed to create user'' (Error ''User already exists with this email''))),
        [example_user])"
  by code_simp

section \<open>C2: Repeated authentication\<close>

text \<open>
  C2, as amended. When the subject id of the verified payload already has a document,
  \<open>authenticateWithGoogle\<close> leaves the \<^verbatim>\<open>_id\<close>s, the \<^verbatim>\<open>googleId\<close>s and the
  emails of the collection as they are, in number and in order: no second document is
  created. When moreover that document is active, the email is verified and the name
  is non-empty and at most 100 characters once trimmed, the call succeeds, the
  document's name becomes the trimmed name of the payload, and its picture becomes the
  picture of the payload when the payload has one and stays as it was otherwise.
\<close>

theorem repeat_authentication_updates_user:
  assumes "store_inv users"
    and "verifyGoogleToken env ext idToken = Inr gp"
    and "sub gp \<in> set (map googleId users)"
  shows "map u_id (snd (authenticateWithGoogle env ext now oid idToken users)) = map u_id users
       \<and> map googleId (snd (authenticateWithGoogle env ext now oid idToken users)) = map googleId users
       \<and> map email (snd (authenticateWithGoogle env ext now oid idToken users)) = map email users
       \<and> (\<forall>r. findByGoogleId (sub gp) users = Some r \<longrightarrow> email_verified gp \<longrightarrow>
              trim (gp_name gp) \<noteq> [] \<longrightarrow> length (trim (gp_name gp)) \<le> 100 \<longrightarrow>
              (\<exists>r'. authenticateWithGoogle env ext now oid idToken users =
                       (Inr \<lparr>user = transformUserToDto r',
                             token = generateJwtToken env now (u_id r) (email r)\<rparr>,
                        snd (authenticateWithGoogle env ext now oid idToken users))
                   \<and> findById (u_id r) (snd (authenticateWithGoogle env ext now oid idToken users)) = Some r'
                   \<and> name r' = trim (gp_name gp)
                   \<and> picture r' = (case gp_picture gp of None \<Rightarrow> picture r | Some p \<Rightarrow> Some p)
                   \<and> u_id r' = u_id r \<and> googleId r' = googleId r \<and> email r' = email r
                   \<and> isActive r' = isActive r \<and> createdAt r' = createdAt r))"
proof -
  let ?upd = "\<lparr>upd_name = Some (gp_name gp), upd_picture = gp_picture gp, upd_isActive = None\<rparr>"
  let ?s = "snd (authenticateWithGoogle env ext now oid idToken users)"
  have keys: "map u_id ?s = map u_id users \<and> map googleId ?s = map googleId users
              \<and> map email ?s = map email users"
  proof (cases "email_verified gp")
    case False
    then show ?thesis using assms(2) by (simp add: authenticateWithGoogle_snd)
  next
    case True
    show ?thesis
    proof (cases "findByGoogleId (sub gp) users")
      case None
      then show ?thesis using assms(2,3) True
        by (simp add: authenticateWithGoogle_snd createUser_known_googleId)
    next
      case (Some found)
      then show ?thesis using assms(2) True updateUser_keys[of now "u_id found" ?upd users]
        by (simp add: authenticateWithGoogle_snd)
    qed
  qed
  have upd: "\<exists>r'. authenticateWithGoogle env ext now oid idToken users =
                       (Inr \<lparr>user = transformUserToDto r',
                             token = generateJwtToken env now (u_id r) (email r)\<rparr>, ?s)
                   \<and> findById (u_id r) ?s = Some r'
                   \<and> name r' = trim (gp_name gp)
                   \<and> picture r' = (case gp_picture gp of None \<Rightarrow> picture r | Some p \<Rightarrow> Some p)
                   \<and> u_id r' = u_id r \<and> googleId r' = googleId r \<and> email r' = email r
                   \<and> isActive r' = isActive r \<and> createdAt r' = createdAt r"
    if f: "findByGoogleId (sub gp) users = Some r" and ev: "email_verified gp"
      and n: "trim (gp_name gp) \<noteq> []" "length (trim (gp_name gp)) \<le> 100" for r
  proof -
    have rin: "r \<in> set users" using f by (simp add: findByGoogleId_Some)
    then have fi: "findById (u_id r) users = Some r"
      using assms(1) by (simp add: store_inv_def findById_distinct)
    have vr: "validate r = []" using assms(1) rin by (simp add: store_inv_def)
    let ?a = "assignFields ?upd r"
    have a: "name ?a = trim (gp_name gp)"
      "picture ?a = (case gp_picture gp of None \<Rightarrow> picture r | Some p \<Rightarrow> Some p)"
      "isActive ?a = isActive r"
      by (simp_all add: assignFields_def Let_def split: option.splits)
    have va: "validate ?a = []"
      using vr n a by (simp add: validate_Nil_iff assignFields_fixed)
    note uf = updateUser_found[OF fi va, of now]
    show ?thesis
    proof (cases "?a = r")
      case True
      then have "authenticateWithGoogle env ext now oid idToken users =
                   (Inr \<lparr>user = transformUserToDto r,
                         token = generateJwtToken env now (u_id r) (email r)\<rparr>, users)"
        using assms(2) ev f uf by (simp add: authenticateWithGoogle_def)
      moreover have "name r = trim (gp_name gp)"
        "picture r = (case gp_picture gp of None \<Rightarrow> picture r | Some p \<Rightarrow> Some p)"
        using a True by simp_all
      ultimately show ?thesis using fi by auto
    next
      case False
      let ?d = "?a\<lparr>updatedAt := now\<rparr>"
      have "authenticateWithGoogle env ext now oid idToken users =
                   (Inr \<lparr>user = transformUserToDto ?d,
                         token = generateJwtToken env now (u_id r) (email r)\<rparr>,
                    replaceById ?d users)"
        using assms(2) ev f uf False by (simp add: authenticateWithGoogle_def assignFields_fixed)
      moreover have "findById (u_id r) (replaceById ?d users) = Some ?d"
        using fi by (intro replaceById_find) (simp_all add: assignFields_fixed)
      ultimately show ?thesis using a by (auto simp: assignFields_fixed)
    qed
  qed
  from keys upd show ?thesis by blast
qed

text \<open>
  The theorem of C2 at the example collection and an assertion for its subject id with
  the name \<^verbatim>\<open>" B "\<close> and a new picture.
\<close>

theorem repeat_authentication_updates_user_witness:
  "store_inv [example_user]
   \<and> verifyGoogleToken example_env
       (example_ext (example_claims ''g-1'' (Some ''a@x.com'') (Some True) (Some '' B '') (Some ''q.png''))) ''assertion''
     = Inr \<lparr>sub = ''g-1'', gp_email = ''a@x.com'', email_verified = True, gp_name = '' B '',
            gp_picture = Some ''q.png'', given_name = None, family_name = None, iat = 0, exp = 3600,
            aud = ''client'', iss = ''accounts.google.com''\<rparr>
   \<and> findByGoogleId ''g-1'' [example_user] = Some example_user
   \<and> map u_id (snd (authenticateWithGoogle example_env
        (example_ext (example_claims ''g-1'' (Some ''a@x.com'') (Some True) (Some '' B '') (Some ''q.png'')))
        5000 2 ''assertion'' [example_user])) = map u_id [example_user]
   \<and> (\<exists>r'. findById (u_id example_user) (snd (authenticateWithGoogle example_env
        (example_ext (example_claims ''g-1'' (Some ''a@x.com'') (Some True) (Some '' B '') (Some ''q.png'')))
        5000 2 ''assertion'' [example_user])) = Some r'
          \<and> name r' = ''B'' \<and> picture r' = Some ''q.png'' \<and> email r' = email example_user)"
proof -
  let ?ext = "example_ext (example_claims ''g-1'' (Some ''a@x.com'') (Some True) (Some '' B '') (Some ''q.png''))"
  let ?gp = "\<lparr>sub = ''g-1'', gp_email = ''a@x.com'', email_verified = True, gp_name = '' B '',
            gp_picture = Some ''q.png'', given_name = None, family_name = None, iat = 0, exp = 3600,
            aud = ''client'', iss = ''accounts.google.com''\<rparr>"
  have h1: "store_inv [example_user]" by (rule store_inv_example)
  have h2: "verifyGoogleToken example_env ?ext ''assertion'' = Inr ?gp" by code_simp
  have h3: "sub ?gp \<in> set (map googleId [example_user])" by code_simp
  have f: "findByGoogleId (sub ?gp) [example_user] = Some example_user" by code_simp
  have ev: "email_verified ?gp" by simp
  have n: "trim (gp_name ?gp) = ''B''" by code_simp
  have n1: "trim (gp_name ?gp) \<noteq> []" and n2: "length (trim (gp_name ?gp)) \<le> 100"
    unfolding n by simp_all
  note th = repeat_authentication_updates_user[OF h1 h2 h3, of 5000 2]
  have k: "map u_id (snd (authenticateWithGoogle example_env ?ext 5000 2 ''assertion'' [example_user]))
             = map u_id [example_user]"
    using th by (rule conjunct1)
  from th[THEN conjunct2, THEN conjunct2, THEN conjunct2, rule_format, OF f ev n1 n2]
  obtain r' where r': "findById (u_id example_user)
        (snd (authenticateWithGoogle example_env ?ext 5000 2 ''assertion'' [example_user])) = Some r'"
      "name r' = trim (gp_name ?gp)"
      "picture r' = (case gp_picture ?gp of None \<Rightarrow> picture example_user | Some p \<Rightarrow> Some p)"
      "email r' = email example_user" by blast
  have "name r' = ''B''" "picture r' = Some ''q.png''" using r'(2,3) n by simp_all
  with r'(1,4) h1 h2 f k show ?thesis by auto
qed

text \<open>
  C2 as stated fails: the payload for the known subject id \<^verbatim>\<open>g-1\<close> carries no
  picture, and after the call the document still has its old picture: the guard
  \<^verbatim>\<open>updateData.picture !== undefined\<close> of \<open>updateUser\<close> skips the assignment.
\<close>

theorem repeat_authentication_counterexample:
  "verifyGoogleToken example_env
       (example_ext (example_claims ''g-1'' (Some ''a@x.com'') (Some True) (Some ''B'') None)) ''assertion''
     = Inr \<lparr>sub = ''g-1'', gp_email = ''a@x.com'', email_verified = True, gp_name = ''B'',
            gp_picture = None, given_name = None, family_name = None, iat = 0, exp = 3600,
            aud = ''client'', iss = ''accounts.google.com''\<rparr>
   \<and> findByGoogleId ''g-1'' [example_user] = Some example_user
   \<and> picture example_user = Some ''p.png''
   \<and> authenticateWithGoogle example_env
        (example_ext (example_claims ''g-1'' (Some ''a@x.com'') (Some True) (Some ''B'') None))
        5000 2 ''assertion'' [example_user]
     = (Inr \<lparr>user = \<lparr>dto_id = 1, dto_email = ''a@x.com'', dto_name = ''B'',
                      dto_picture = Some ''p.png'', dto_isActive = True, dto_createdAt = 1000,
                      dto_updatedAt = 5000\<rparr>,
             token = generateJwtToken example_env 5000 1 ''a@x.com''\<rparr>,
        [\<lparr>u_id = 1, googleId = ''g-1'', email = ''a@x.com'', name = ''B'',
          picture = Some ''p.png'', isActive = True, createdAt = 1000, updatedAt = 5000\<rparr>])"
  by code_simp

section \<open>C3: Unverified email\<close>

text \<open>
  C3. When the verifier returns a payload whose \<^verbatim>\<open>email_verified\<close> claim is false,
  \<open>authenticateWithGoogle\<close> fails with
  \<^verbatim>\<open>Authentication failed: Email not verified with Google\<close>, whatever the other
  claims are, and the collection is the one before the call.
\<close>

theorem unverified_email_rejected:
  assumes "verifyIdToken ext idToken (googleClientId env) = Inr (Some p)"
    and "tp_email_verified p = Some False"
  shows "authenticateWithGoogle env ext now oid idToken users =
           (Inl (Wrap ''Authentication failed'' (Error ''Email not verified with Google'')), users)"
  using assms by (simp add: authenticateWithGoogle_def verifyGoogleToken_def)

text \<open>
  The theorem of C3 at an assertion of the example user with
  \<^verbatim>\<open>email_verified: false\<close>.
\<close>

theorem unverified_email_rejected_witness:
  "verifyIdToken (example_ext (example_claims ''g-1'' (Some ''a@x.com'') (Some False) (Some ''A'') None))
      ''assertion'' (googleClientId example_env)
     = Inr (Some (example_claims ''g-1'' (Some ''a@x.com'') (Some False) (Some ''A'') None))
   \<and> tp_email_verified (example_claims ''g-1'' (Some ''a@x.com'') (Some False) (Some ''A'') None) = Some False
   \<and> authenticateWithGoogle example_env
        (example_ext (example_claims ''g-1'' (Some ''a@x.com'') (Some False) (Some ''A'') None))
        5000 2 ''assertion'' [example_user]
      = (Inl (Wrap ''Authentication failed'' (Error ''Email not verified with Google'')), [example_user])"
  using unverified_email_rejected[of
      "example_ext (example_claims ''g-1'' (Some ''a@x.com'') (Some False) (Some ''A'') None)"
      "''assertion''" example_env
      "example_claims ''g-1'' (Some ''a@x.com'') (Some False) (Some ''A'') None" 5000 2 "[example_user]"]
  by (simp add: example_ext_def example_env_def example_claims_def)

section \<open>C4: Session token round trip\<close>

text \<open>
  C4. A token issued for a user id and an email at time \<open>now\<close> and verified at a time
  \<open>now'\<close> before its expiry (the clock in seconds is below \<^verbatim>\<open>iat\<close> plus the
  configured span) is accepted, and the decoded payload carries exactly that user id
  and that email (with the \<^verbatim>\<open>iat\<close> and \<^verbatim>\<open>exp\<close> stamped by the issuer).
\<close>

theorem verify_issue_roundtrip:
  assumes "now' div 1000 < now div 1000 + jwtExpiresIn env"
  shows "\<exists>p. verifyJwtToken env now' (generateJwtToken env now uid mail) = Inr p
           \<and> userId p = uid \<and> jp_email p = mail
           \<and> jp_iat p = Some (now div 1000)
           \<and> jp_exp p = Some (now div 1000 + jwtExpiresIn env)"
  using assms by (simp add: verify_generate)

text \<open>
  The theorem of C4 for a token issued at 1000 ms and verified at 1500 ms with a span of
  seven days.
\<close>

theorem verify_issue_roundtrip_witness:
  "(1500::int) div 1000 < 1000 div 1000 + jwtExpiresIn \<lparr>jwtSecret = ''k'', jwtExpiresIn = 604800, googleClientId = ''c''\<rparr>
   \<and> (\<exists>p. verifyJwtToken \<lparr>jwtSecret = ''k'', jwtExpiresIn = 604800, googleClientId = ''c''\<rparr> 1500
             (generateJwtToken \<lparr>jwtSecret = ''k'', jwtExpiresIn = 604800, googleClientId = ''c''\<rparr> 1000 7 ''a@x.com'') = Inr p
           \<and> userId p = 7 \<and> jp_email p = ''a@x.com'')"
  using verify_issue_roundtrip [of 1500 1000 "\<lparr>jwtSecret = ''k'', jwtExpiresIn = 604800, googleClientId = ''c''\<rparr>" 7 "''a@x.com''"]
  by auto

section \<open>C5: Duplicate email\<close>

text \<open>
  C5. While an active document holds an email (stored in lower case and trimmed, as
  the setters of the schema leave it), \<open>createUser\<close> with the same email up to case
  fails with
  \<^verbatim>\<open>Failed to create user: User already exists with this email\<close>, and the
  collection, the original document included, is the one before the call.
\<close>

theorem duplicate_email_rejected:
  assumes "r \<in> set users" and "isActive r" and "toLowerCase (email r) = email r"
    and "trim (email r) = email r"
    and "toLowerCase (c_email userData) = toLowerCase (email r)"
  shows "createUser now oid userData users =
           (Inl (Wrap ''Failed to create user'' (Error ''User already exists with this email'')), users)"
proof -
  have "trim (toLowerCase (c_email userData)) = email r" using assms(3,4,5) by simp
  then have "email r = trim (toLowerCase (c_email userData)) \<and> isActive r" using assms(2) by simp
  from find_Some_ex[of "\<lambda>u. email u = trim (toLowerCase (c_email userData)) \<and> isActive u",
      OF this assms(1)]
  obtain y where "findByEmail (c_email userData) users = Some y"
    by (auto simp: findByEmail_def)
  then show ?thesis by (simp add: createUser_def)
qed

text \<open>
  The theorem of C5 at the example user and the email \<^verbatim>\<open>A@X.com\<close>.
\<close>

theorem duplicate_email_rejected_witness:
  "example_user \<in> set [example_user] \<and> isActive example_user
   \<and> toLowerCase (email example_user) = email example_user
   \<and> trim (email example_user) = email example_user
   \<and> toLowerCase (c_email \<lparr>c_googleId = ''g-2'', c_email = ''A@X.com'', c_name = ''B'', c_picture = None\<rparr>)
       = toLowerCase (email example_user)
   \<and> createUser 5000 2 \<lparr>c_googleId = ''g-2'', c_email = ''A@X.com'', c_name = ''B'', c_picture = None\<rparr>
        [example_user]
      = (Inl (Wrap ''Failed to create user'' (Error ''User already exists with this email'')), [example_user])"
proof -
  have a: "toLowerCase (email example_user) = email example_user" by code_simp
  have b: "toLowerCase (c_email \<lparr>c_googleId = ''g-2'', c_email = ''A@X.com'', c_name = ''B'', c_picture = None\<rparr>)
       = toLowerCase (email example_user)" by code_simp
  have c: "isActive example_user" by (simp add: example_user_def)
  have d: "example_user \<in> set [example_user]" by simp
  have t: "trim (email example_user) = email example_user" by code_simp
  from duplicate_email_rejected[OF d c a t b, of 5000 2] a b c d t show ?thesis by blast
qed

section \<open>C6: Partial update\<close>

text \<open>
  C6. \<open>updateUser\<close> with the empty update object leaves every document of the
  collection as it was, \<^verbatim>\<open>updatedAt\<close> apart, and returns the stored document when
  that document exists and is valid. For any update object, every document keeps its
  \<^verbatim>\<open>_id\<close>, \<^verbatim>\<open>googleId\<close>, \<^verbatim>\<open>email\<close> and \<^verbatim>\<open>createdAt\<close> and each of
  \<^verbatim>\<open>name\<close>, \<^verbatim>\<open>picture\<close>, \<^verbatim>\<open>isActive\<close> that the update object does not
  carry; documents with another \<^verbatim>\<open>_id\<close> stay as they are.
\<close>

theorem updateUser_partial:
  "list_all2 (\<lambda>u u'. u'\<lparr>updatedAt := updatedAt u\<rparr> = u) users
     (snd (updateUser now uid \<lparr>upd_name = None, upd_picture = None, upd_isActive = None\<rparr> users))
   \<and> (\<forall>r. findById uid users = Some r \<longrightarrow> validate r = [] \<longrightarrow>
         fst (updateUser now uid \<lparr>upd_name = None, upd_picture = None, upd_isActive = None\<rparr> users) = Inr r)
   \<and> list_all2 (untouched updateData) users (snd (updateUser now uid updateData users))
   \<and> (\<forall>u \<in> set users. u_id u \<noteq> uid \<longrightarrow> u \<in> set (snd (updateUser now uid updateData users)))"
proof (intro conjI)
  show "list_all2 (\<lambda>u u'. u'\<lparr>updatedAt := updatedAt u\<rparr> = u) users
     (snd (updateUser now uid \<lparr>upd_name = None, upd_picture = None, upd_isActive = None\<rparr> users))"
    by (simp add: updateUser_empty list_all2_refl split: option.splits)
  show "\<forall>r. findById uid users = Some r \<longrightarrow> validate r = [] \<longrightarrow>
         fst (updateUser now uid \<lparr>upd_name = None, upd_picture = None, upd_isActive = None\<rparr> users) = Inr r"
    by (simp add: updateUser_empty)
  show "list_all2 (untouched updateData) users (snd (updateUser now uid updateData users))"
    by (rule updateUser_untouched)
  show "\<forall>u \<in> set users. u_id u \<noteq> uid \<longrightarrow> u \<in> set (snd (updateUser now uid updateData users))"
    by (auto simp: updateUser_snd assignFields_fixed findById_Some intro!: replaceById_other split: option.splits)
qed

text \<open>
  The theorem of C6 at the example user, with the empty update and with an update of
  the name alone.
\<close>

theorem updateUser_partial_witness:
  "findById 1 [example_user] = Some example_user \<and> validate example_user = []
   \<and> fst (updateUser 9000 1 \<lparr>upd_name = None, upd_picture = None, upd_isActive = None\<rparr> [example_user])
        = Inr example_user
   \<and> upd_picture \<lparr>upd_name = Some ''B'', upd_picture = None, upd_isActive = None\<rparr> = None
   \<and> upd_isActive \<lparr>upd_name = Some ''B'', upd_picture = None, upd_isActive = None\<rparr> = None
   \<and> list_all2 (untouched \<lparr>upd_name = Some ''B'', upd_picture = None, upd_isActive = None\<rparr>)
        [example_user]
        (snd (updateUser 9000 1 \<lparr>upd_name = Some ''B'', upd_picture = None, upd_isActive = None\<rparr> [example_user]))"
proof -
  have a: "findById 1 [example_user] = Some example_user"
    by (simp add: findById_def example_user_def)
  have b: "validate example_user = []"
    by (simp add: validate_def example_user_def)
  from updateUser_partial[of "[example_user]" 9000 1 "\<lparr>upd_name = Some ''B'', upd_picture = None, upd_isActive = None\<rparr>"]
    a b show ?thesis by simp
qed

section \<open>C7: Deactivation is idempotent\<close>

text \<open>
  C7, as amended. For a stored, valid document, calling \<open>deactivateUser\<close> one or more
  times leaves the collection that a single call leaves, with the document inactive
  and otherwise unchanged (\<^verbatim>\<open>updatedAt\<close> apart). Afterwards
  \<^verbatim>\<open>GET /profile\<close> and \<^verbatim>\<open>DELETE /profile\<close> with any token that refers to
  that user are answered by \<open>authenticateToken\<close> with status 401 and error
  \<^verbatim>\<open>UNAUTHORIZED\<close>, and the collection stays as it is.
\<close>

theorem deactivation_idempotent:
  assumes "findById uid users = Some r" and "validate r = []"
  shows "deactivateRepeatedly (t # ts) uid users = snd (deactivateUser t uid users)
    \<and> (\<exists>r'. findById uid (deactivateRepeatedly (t # ts) uid users) = Some r' \<and> \<not> isActive r'
            \<and> r'\<lparr>updatedAt := updatedAt r\<rparr> = r\<lparr>isActive := False\<rparr>)
    \<and> (\<forall>now oid p sg. userId p = uid \<longrightarrow>
          (\<exists>resp. router env ext now oid (GetProfile (Bearer (Jwt p sg)))
                     (deactivateRepeatedly (t # ts) uid users)
                   = (resp, deactivateRepeatedly (t # ts) uid users)
                 \<and> status resp = 401 \<and> error resp = Some ''UNAUTHORIZED'') \<and>
          (\<exists>resp. router env ext now oid (DeleteProfile (Bearer (Jwt p sg)))
                     (deactivateRepeatedly (t # ts) uid users)
                   = (resp, deactivateRepeatedly (t # ts) uid users)
                 \<and> status resp = 401 \<and> error resp = Some ''UNAUTHORIZED''))"
proof -
  from deactivateUser_result[OF assms, of t]
  obtain r' where r': "findById uid (snd (deactivateUser t uid users)) = Some r'" "\<not> isActive r'"
    "r'\<lparr>updatedAt := updatedAt r\<rparr> = r\<lparr>isActive := False\<rparr>" by blast
  have once: "deactivateRepeatedly (t # ts) uid users = snd (deactivateUser t uid users)"
    using deactivateRepeatedly_inactive[OF r'(1,2)] by simp
  have "(\<exists>resp. router env ext now oid (GetProfile (Bearer (Jwt p sg))) (snd (deactivateUser t uid users))
                   = (resp, snd (deactivateUser t uid users))
                 \<and> status resp = 401 \<and> error resp = Some ''UNAUTHORIZED'') \<and>
        (\<exists>resp. router env ext now oid (DeleteProfile (Bearer (Jwt p sg))) (snd (deactivateUser t uid users))
                   = (resp, snd (deactivateUser t uid users))
                 \<and> status resp = 401 \<and> error resp = Some ''UNAUTHORIZED'')"
    if "userId p = uid" for now oid p sg
    using authenticateToken_inactive[of p "snd (deactivateUser t uid users)" r' env now sg] r' that
    by (auto simp: failure_def)
  then show ?thesis using once r' by auto
qed

text \<open>
  The theorem of C7 at the example user, deactivated twice, and the token issued to it.
\<close>

theorem deactivation_idempotent_witness:
  "findById 1 [example_user] = Some example_user \<and> validate example_user = []
   \<and> deactivateRepeatedly [6000, 6500] 1 [example_user] = snd (deactivateUser 6000 1 [example_user])
   \<and> userId \<lparr>userId = 1, jp_email = ''a@x.com'', jp_iat = Some 5, jp_exp = Some 604805\<rparr> = 1
   \<and> (\<exists>resp. router example_env (example_ext (example_claims ''g-1'' None None None None)) 7000 3
                 (GetProfile (Bearer (Jwt \<lparr>userId = 1, jp_email = ''a@x.com'', jp_iat = Some 5,
                                           jp_exp = Some 604805\<rparr>
                                        (HS256 ''secret'' \<lparr>userId = 1, jp_email = ''a@x.com'',
                                           jp_iat = Some 5, jp_exp = Some 604805\<rparr>))))
                 (deactivateRepeatedly [6000, 6500] 1 [example_user])
               = (resp, deactivateRepeatedly [6000, 6500] 1 [example_user])
             \<and> status resp = 401 \<and> error resp = Some ''UNAUTHORIZED'')"
proof -
  have a: "findById 1 [example_user] = Some example_user"
    by (simp add: findById_def example_user_def)
  have b: "validate example_user = []"
    by (simp add: validate_def example_user_def)
  note th = deactivation_idempotent[OF a b, of 6000 "[6500]" example_env
      "example_ext (example_claims ''g-1'' None None None None)"]
  have c: "deactivateRepeatedly [6000, 6500] 1 [example_user] = snd (deactivateUser 6000 1 [example_user])"
    using th by (rule conjunct1)
  have d: "userId \<lparr>userId = 1, jp_email = ''a@x.com'', jp_iat = Some 5, jp_exp = Some 604805\<rparr> = 1"
    by simp
  note e = th[THEN conjunct2, THEN conjunct2, rule_format, OF d, THEN conjunct1, of 7000 3]
  from a b c d e show ?thesis by blast
qed

text \<open>
  C7 as stated fails: after the deactivation of the example user, \<^verbatim>\<open>GET /profile\<close>
  with that user's valid, unexpired token is answered with 401
  (\<^verbatim>\<open>Invalid or expired token\<close>), not with the 404 of \<^verbatim>\<open>USER_NOT_FOUND\<close>; and
  \<open>getUserById\<close> itself, which does not look at the active flag, still returns the
  profile.
\<close>

theorem getProfile_after_deactivation_counterexample:
  "verifyJwtToken example_env 7000 (generateJwtToken example_env 5000 1 ''a@x.com'')
     = Inr \<lparr>userId = 1, jp_email = ''a@x.com'', jp_iat = Some 5, jp_exp = Some 604805\<rparr>
   \<and> router example_env (example_ext (example_claims ''g-1'' None None None None)) 7000 3 
         (GetProfile (Bearer (generateJwtToken example_env 5000 1 ''a@x.com'')))
         (snd (deactivateUser 6000 1 [example_user]))
     = (\<lparr>status = 401, success = False, message = ''Invalid or expired token'', data = None,
         error = Some ''UNAUTHORIZED''\<rparr>,
        [example_user\<lparr>isActive := False, updatedAt := 6000\<rparr>])
   \<and> getUserById 1 (snd (deactivateUser 6000 1 [example_user]))
     = Some (transformUserToDto (example_user\<lparr>isActive := False, updatedAt := 6000\<rparr>))"
  by (simp add: verifyJwtToken_def example_env_def example_user_def deactivateUser_snd findById_def
      validate_def authenticateToken_def generateJwtToken_def jwt_sign_def jwt_verify_def
      failure_def getUserById_def Let_def)

section \<open>C8: Deactivation is terminal\<close>

text \<open>
  C8. In a collection with distinct \<^verbatim>\<open>_id\<close>s, an inactive document is still in the
  collection, unchanged and so still inactive, after any sequence of requests to the
  routes (\<^verbatim>\<open>POST /auth/google\<close>, \<^verbatim>\<open>POST /auth/signout\<close>, \<^verbatim>\<open>GET\<close>,
  \<^verbatim>\<open>PUT\<close> and \<^verbatim>\<open>DELETE /profile\<close>, \<^verbatim>\<open>GET /exists\<close>), whatever their
  headers, bodies and times; and the \<^verbatim>\<open>_id\<close>s stay distinct, so no other document
  takes its place.
\<close>

theorem deactivation_terminal:
  assumes "distinct (map u_id users)" and "r \<in> set users" and "\<not> isActive r"
  shows "r \<in> set (serve env ext reqs users) \<and> distinct (map u_id (serve env ext reqs users))"
  using assms
proof (induction reqs arbitrary: users)
  case Nil
  then show ?case by simp
next
  case (Cons rq reqs)
  obtain now oid q where rq: "rq = (now, oid, q)" by (cases rq)
  from router_keeps[OF Cons.prems, of env ext now oid q] Cons.prems(3)
  have "r \<in> set (serve env ext reqs (snd (router env ext now oid q users))) \<and>
        distinct (map u_id (serve env ext reqs (snd (router env ext now oid q users))))"
    by (intro Cons.IH) simp_all
  then show ?case by (simp add: rq)
qed

text \<open>
  The theorem of C8 at the deactivated example user, for a \<^verbatim>\<open>PUT /profile\<close> that asks
  for \<^verbatim>\<open>isActive: true\<close> with the user's own token followed by a new sign-in.
\<close>

theorem deactivation_terminal_witness:
  "distinct (map u_id [example_user\<lparr>isActive := False\<rparr>])
   \<and> example_user\<lparr>isActive := False\<rparr> \<in> set [example_user\<lparr>isActive := False\<rparr>]
   \<and> \<not> isActive (example_user\<lparr>isActive := False\<rparr>)
   \<and> example_user\<lparr>isActive := False\<rparr> \<in>
       set (serve example_env (example_ext (example_claims ''g-1'' (Some ''a@x.com'') (Some True) (Some ''A'') None))
              [(7000, 3, PutProfile (Bearer (generateJwtToken example_env 5000 1 ''a@x.com''))
                           \<lparr>upd_name = None, upd_picture = None, upd_isActive = Some True\<rparr>),
               (8000, 4, PostAuthGoogle (Some ''assertion''))]
              [example_user\<lparr>isActive := False\<rparr>])"
  using deactivation_terminal[of "[example_user\<lparr>isActive := False\<rparr>]" "example_user\<lparr>isActive := False\<rparr>"
      example_env "example_ext (example_claims ''g-1'' (Some ''a@x.com'') (Some True) (Some ''A'') None)"
      "[(7000, 3, PutProfile (Bearer (generateJwtToken example_env 5000 1 ''a@x.com''))
                           \<lparr>upd_name = None, upd_picture = None, upd_isActive = Some True\<rparr>),
               (8000, 4, PostAuthGoogle (Some ''assertion''))]"]
  by simp

section \<open>C9: existsByEmail\<close>




section \<open>C10: Defaults of absent claims\<close>

text \<open>
  C10. When the payload has no \<^verbatim>\<open>email_verified\<close> claim, \<open>verifyGoogleToken\<close>
  succeeds with \<open>email_verified = False\<close>, and \<open>authenticateWithGoogle\<close> rejects the
  assertion as unverified without touching the collection. When the payload has no
  \<^verbatim>\<open>email\<close> claim, \<open>verifyGoogleToken\<close> succeeds with the empty string as email.
\<close>

theorem absent_claims_defaulted:
  assumes "verifyIdToken ext idToken (googleClientId env) = Inr (Some p)"
  shows "(tp_email_verified p = None \<longrightarrow>
            (\<exists>gp. verifyGoogleToken env ext idToken = Inr gp \<and> email_verified gp = False) \<and>
            authenticateWithGoogle env ext now oid idToken users =
              (Inl (Wrap ''Authentication failed'' (Error ''Email not verified with Google'')), users))
       \<and> (tp_email p = None \<longrightarrow>
            (\<exists>gp. verifyGoogleToken env ext idToken = Inr gp \<and> gp_email gp = []))"
  using assms by (simp add: authenticateWithGoogle_def verifyGoogleToken_def)

text \<open>
  The theorem of C10 at a payload with neither \<^verbatim>\<open>email\<close> nor
  \<^verbatim>\<open>email_verified\<close>.
\<close>

theorem absent_claims_defaulted_witness:
  "verifyIdToken (example_ext (example_claims ''g-1'' None None (Some ''A'') None))
      ''assertion'' (googleClientId example_env)
     = Inr (Some (example_claims ''g-1'' None None (Some ''A'') None))
   \<and> tp_email_verified (example_claims ''g-1'' None None (Some ''A'') None) = None
   \<and> tp_email (example_claims ''g-1'' None None (Some ''A'') None) = None
   \<and> (\<exists>gp. verifyGoogleToken example_env (example_ext (example_claims ''g-1'' None None (Some ''A'') None))
              ''assertion'' = Inr gp \<and> email_verified gp = False \<and> gp_email gp = [])
   \<and> authenticateWithGoogle example_env
        (example_ext (example_claims ''g-1'' None None (Some ''A'') None))
        5000 2 ''assertion'' [example_user]
      = (Inl (Wrap ''Authentication failed'' (Error ''Email not verified with Google'')), [example_user])"
  using absent_claims_defaulted[of
      "example_ext (example_claims ''g-1'' None None (Some ''A'') None)"
      "''assertion''" example_env
      "example_claims ''g-1'' None None (Some ''A'') None" 5000 2 "[example_user]"]
  by (auto simp add: example_ext_def example_env_def example_claims_def)

end
